theory Spec2Isabelle
  imports Main
begin

section \<open>JavaScript values used by the controllers\<close>

subsection \<open>Plain objects as insertion-ordered association lists\<close>

text \<open>
  The preferences controller keeps its mappings in plain JavaScript objects and reads
  them back with \<^verbatim>\<open>Object.keys\<close> and \<^verbatim>\<open>for ... in\<close>, so the order of the keys is
  observable. A plain object with string keys is an association list in insertion order:
  assigning to a key that is present replaces the value where the key stands, assigning
  to a new key appends it, \<^verbatim>\<open>delete\<close> removes the key. (Keys that look like array
  indices are enumerated first by JavaScript; every key stored here is an output of
  \<^verbatim>\<open>toChecksumAddress\<close>, which starts with \<^verbatim>\<open>0x\<close>, so the case does not arise.)
\<close>

type_synonym 'v js_object = "(string \<times> 'v) list"

text \<open>\<^verbatim>\<open>obj[k]\<close>: \<open>None\<close> is JavaScript's \<^verbatim>\<open>undefined\<close>.\<close>

definition obj_get :: "'v js_object \<Rightarrow> string \<Rightarrow> 'v option" where
  "obj_get obj k = map_of obj k"

text \<open>\<^verbatim>\<open>obj[k] = v\<close>\<close>

fun obj_set :: "string \<Rightarrow> 'v \<Rightarrow> 'v js_object \<Rightarrow> 'v js_object" where
  "obj_set k v [] = [(k, v)]"
| "obj_set k v (p # ps) = (if fst p = k then (k, v) # ps else p # obj_set k v ps)"

text \<open>\<^verbatim>\<open>delete obj[k]\<close>\<close>

definition obj_delete :: "string \<Rightarrow> 'v js_object \<Rightarrow> 'v js_object" where
  "obj_delete k obj = filter (\<lambda>p. fst p \<noteq> k) obj"

text \<open>\<^verbatim>\<open>Object.keys(obj)\<close>\<close>

definition obj_keys :: "'v js_object \<Rightarrow> string list" where
  "obj_keys obj = map fst obj"

text \<open>\<^verbatim>\<open>xs[0]\<close> on an array: \<^verbatim>\<open>undefined\<close> when the array is empty.\<close>

definition first_elem :: "'a list \<Rightarrow> 'a option" where
  "first_elem xs = (case xs of [] \<Rightarrow> None | x # _ \<Rightarrow> Some x)"

subsection \<open>Template literals: a count printed in decimal\<close>

definition digit_char :: "nat \<Rightarrow> char" where
  "digit_char d = ''0123456789'' ! d"

fun string_of_nat :: "nat \<Rightarrow> string" where
  "string_of_nat n =
     (if n < 10 then [digit_char n]
      else string_of_nat (n div 10) @ [digit_char (n mod 10)])"

declare string_of_nat.simps [simp del]

section \<open>The ERC721 standard probes\<close>

subsection \<open>Remote calls\<close>

text \<open>A JavaScript \<^verbatim>\<open>Error\<close> with its message.\<close>

datatype js_error = Error string

text \<open>
  A contract method takes a callback \<^verbatim>\<open>(error, result) => ...\<close>; the pair below is what
  the transport passes to it, \<open>None\<close> being a falsy \<^verbatim>\<open>error\<close>. The transport is assumed
  to invoke each callback once. The contract is remote state that may change between two
  calls, so every method also takes the number of remote calls issued before this one.
\<close>

record Contract =
  call_supportsInterface :: "nat \<Rightarrow> string \<Rightarrow> js_error option \<times> bool"
  call_tokenOfOwnerByIndex :: "nat \<Rightarrow> string \<Rightarrow> int \<Rightarrow> js_error option \<times> string"
  call_tokenURI :: "nat \<Rightarrow> string \<Rightarrow> js_error option \<times> string"
  call_name :: "nat \<Rightarrow> js_error option \<times> string"
  call_symbol :: "nat \<Rightarrow> js_error option \<times> string"
  call_ownerOf :: "nat \<Rightarrow> string \<Rightarrow> js_error option \<times> string"

text \<open>The remote calls an operation issues, in the order it issues them.\<close>

datatype remote_call =
    SupportsInterfaceCall string
  | TokenOfOwnerByIndexCall string int
  | TokenURICall string
  | NameCall
  | SymbolCall
  | OwnerOfCall string

text \<open>
  An asynchronous operation: the calls it issued and how its promise settles, \<open>Inl\<close> a
  rejection and \<open>Inr\<close> the value it resolves to.
\<close>

type_synonym 'a async = "remote_call list \<times> (js_error + 'a)"

text \<open>
  \<^verbatim>\<open>new Promise((resolve, reject) => method(..., (error, result) => { if (error) {
  reject(error); return; } resolve(result); }))\<close>
\<close>

definition promise_of_callback :: "js_error option \<times> 'a \<Rightarrow> js_error + 'a" where
  "promise_of_callback cb =
     (case cb of (Some error, result) \<Rightarrow> Inl error | (None, result) \<Rightarrow> Inr result)"

text \<open>
  \<^verbatim>\<open>await Promise.all([p, q])\<close>: it rejects with the rejection that arrives first. When
  both reject, which one arrives first is up to the transport; \<open>first_wins\<close> says it was
  that of \<open>p\<close>.
\<close>

definition promise_all2 :: "bool \<Rightarrow> js_error + 'a \<Rightarrow> js_error + 'b \<Rightarrow> js_error + 'a \<times> 'b" where
  "promise_all2 first_wins p q =
     (case p of
        Inl e1 \<Rightarrow> (case q of Inl e2 \<Rightarrow> Inl (if first_wins then e1 else e2) | Inr b \<Rightarrow> Inl e1)
      | Inr a \<Rightarrow> (case q of Inl e2 \<Rightarrow> Inl e2 | Inr b \<Rightarrow> Inr (a, b)))"

subsection \<open>The probe that dispatches by contract address\<close>

text \<open>
  \<^verbatim>\<open>this.web3.eth.contract(abiERC721).at(address)\<close> is the field \<open>eth_contract_at\<close>. The
  module \<^verbatim>\<open>constants\<close> is not among the sources; its four constants are the fields of
  \<open>Constants\<close>, a parameter of the functions that use them.
\<close>

record Web3 =
  eth_contract_at :: "string \<Rightarrow> Contract"

record Constants =
  ERC721_INTERFACE_ID :: string
  ERC721_METADATA_INTERFACE_ID :: string
  ERC721_ENUMERABLE_INTERFACE_ID :: string
  ERC721 :: string

record AssetDetails =
  standard :: string
  tokenURI :: "string option"
  symbol :: "string option"
  name :: "string option"

definition contractSupportsInterface :: "Web3 \<Rightarrow> nat \<Rightarrow> string \<Rightarrow> string \<Rightarrow> bool async" where
  "contractSupportsInterface web3 t addr interfaceId =
     (let contract = eth_contract_at web3 addr
      in ([SupportsInterfaceCall interfaceId],
          promise_of_callback (call_supportsInterface contract t interfaceId)))"

definition contractSupportsMetadataInterface ::
  "Constants \<Rightarrow> Web3 \<Rightarrow> nat \<Rightarrow> string \<Rightarrow> bool async" where
  "contractSupportsMetadataInterface consts web3 t addr =
     contractSupportsInterface web3 t addr (ERC721_METADATA_INTERFACE_ID consts)"

definition contractSupportsEnumerableInterface ::
  "Constants \<Rightarrow> Web3 \<Rightarrow> nat \<Rightarrow> string \<Rightarrow> bool async" where
  "contractSupportsEnumerableInterface consts web3 t addr =
     contractSupportsInterface web3 t addr (ERC721_ENUMERABLE_INTERFACE_ID consts)"

definition contractSupportsBase721Interface ::
  "Constants \<Rightarrow> Web3 \<Rightarrow> nat \<Rightarrow> string \<Rightarrow> bool async" where
  "contractSupportsBase721Interface consts web3 t addr =
     contractSupportsInterface web3 t addr (ERC721_INTERFACE_ID consts)"

definition getCollectibleTokenId ::
  "Web3 \<Rightarrow> nat \<Rightarrow> string \<Rightarrow> string \<Rightarrow> int \<Rightarrow> string async" where
  "getCollectibleTokenId web3 t addr selectedAddress0 index =
     (let contract = eth_contract_at web3 addr
      in ([TokenOfOwnerByIndexCall selectedAddress0 index],
          promise_of_callback (call_tokenOfOwnerByIndex contract t selectedAddress0 index)))"

definition getTokenURI ::
  "Constants \<Rightarrow> Web3 \<Rightarrow> nat \<Rightarrow> string \<Rightarrow> string \<Rightarrow> string async" where
  "getTokenURI consts web3 t addr tokenId =
     (let contract = eth_contract_at web3 addr;
          (calls1, supportsMetadata) = contractSupportsMetadataInterface consts web3 t addr
      in case supportsMetadata of
           Inl e \<Rightarrow> (calls1, Inl e)
         | Inr supported \<Rightarrow>
             if \<not> supported
             then (calls1,
                   Inl (Error ''Contract does not support ERC721 metadata interface.''))
             else (calls1 @ [TokenURICall tokenId],
                   promise_of_callback
                     (call_tokenURI contract (t + length calls1) tokenId)))"

definition getAssetName :: "Web3 \<Rightarrow> nat \<Rightarrow> string \<Rightarrow> string async" where
  "getAssetName web3 t addr =
     (let contract = eth_contract_at web3 addr
      in ([NameCall], promise_of_callback (call_name contract t)))"

definition getAssetSymbol :: "Web3 \<Rightarrow> nat \<Rightarrow> string \<Rightarrow> string async" where
  "getAssetSymbol web3 t addr =
     (let contract = eth_contract_at web3 addr
      in ([SymbolCall], promise_of_callback (call_symbol contract t)))"

definition getOwnerOf :: "Web3 \<Rightarrow> nat \<Rightarrow> string \<Rightarrow> string \<Rightarrow> string async" where
  "getOwnerOf web3 t addr tokenId =
     (let contract = eth_contract_at web3 addr
      in ([OwnerOfCall tokenId], promise_of_callback (call_ownerOf contract t tokenId)))"

text \<open>\<^verbatim>\<open>if (tokenId)\<close> on an optional string: a missing and an empty one are falsy.\<close>

definition truthy :: "string option \<Rightarrow> bool" where
  "truthy tokenId = (case tokenId of None \<Rightarrow> False | Some x \<Rightarrow> x \<noteq> [])"

text \<open>
  The \<^verbatim>\<open>if (supportsMetadata) { ... }\<close> block of \<^verbatim>\<open>getDetails\<close>: the calls it issues
  and the values it leaves in \<^verbatim>\<open>(tokenURI, symbol, name)\<close>, or the rejection that ends
  \<^verbatim>\<open>getDetails\<close>.
\<close>

definition getDetails_metadata ::
  "Constants \<Rightarrow> Web3 \<Rightarrow> bool \<Rightarrow> nat \<Rightarrow> string \<Rightarrow> string option
     \<Rightarrow> (string option \<times> string option \<times> string option) async" where
  "getDetails_metadata consts web3 first_wins t addr tokenId =
     (let (calls1, symbol_p) = getAssetSymbol web3 t addr;
          (calls2, name_p) = getAssetName web3 (t + length calls1) addr
      in case promise_all2 first_wins symbol_p name_p of
           Inl e \<Rightarrow> (calls1 @ calls2, Inl e)
         | Inr (symbol0, name0) \<Rightarrow>
             if truthy tokenId
             then
               let (calls3, tokenURI_p) =
                     getTokenURI consts web3 (t + length calls1 + length calls2) addr
                       (case tokenId of Some x \<Rightarrow> x | None \<Rightarrow> [])
               in case tokenURI_p of
                    Inl e \<Rightarrow> (calls1 @ calls2 @ calls3, Inl e)
                  | Inr tokenURI0 \<Rightarrow>
                      (calls1 @ calls2 @ calls3, Inr (Some tokenURI0, Some symbol0, Some name0))
             else (calls1 @ calls2, Inr (None, Some symbol0, Some name0)))"

text \<open>
  \<open>races\<close> holds, for the two \<^verbatim>\<open>Promise.all\<close> of \<^verbatim>\<open>getDetails\<close>, which rejection arrives
  first when both promises reject.
\<close>

definition getDetails ::
  "Constants \<Rightarrow> Web3 \<Rightarrow> bool \<times> bool \<Rightarrow> nat \<Rightarrow> string \<Rightarrow> string option
     \<Rightarrow> AssetDetails async" where
  "getDetails consts web3 races t addr tokenId =
     (let (calls1, isERC721_p) = contractSupportsBase721Interface consts web3 t addr;
          (calls2, supportsMetadata_p) =
             contractSupportsMetadataInterface consts web3 (t + length calls1) addr
      in case promise_all2 (fst races) isERC721_p supportsMetadata_p of
           Inl e \<Rightarrow> (calls1 @ calls2, Inl e)
         | Inr (isERC721, supportsMetadata) \<Rightarrow>
             (let (calls3, gathered) =
                    (if supportsMetadata
                     then getDetails_metadata consts web3 (snd races)
                            (t + length calls1 + length calls2) addr tokenId
                     else ([], Inr (None, None, None)))
              in (case gathered of
                    Inl e \<Rightarrow> (calls1 @ calls2 @ calls3, Inl e)
                  | Inr (tokenURI0, symbol0, name0) \<Rightarrow>
                      if isERC721
                      then (calls1 @ calls2 @ calls3,
                            Inr \<lparr>standard = ERC721 consts, tokenURI = tokenURI0,
                                 symbol = symbol0, name = name0\<rparr>)
                      else (calls1 @ calls2 @ calls3,
                            Inl (Error ''This isn't a valid ERC721 contract'')))))"

subsection \<open>The probe that is given the contract's bound methods\<close>

text \<open>
  The second probe has the names of the first; its functions carry the suffix \<open>_m\<close>.
  Its \<^verbatim>\<open>contract\<close> argument is an object whose \<^verbatim>\<open>methods\<close> are the contract's methods.
\<close>

record BoundContract =
  methods :: Contract

definition ERC721_METADATA_INTERFACE_ID_m :: string where
  "ERC721_METADATA_INTERFACE_ID_m = ''0x5b5e139f''"

definition ERC721_ENUMERABLE_INTERFACE_ID_m :: string where
  "ERC721_ENUMERABLE_INTERFACE_ID_m = ''0x780e9d63''"

definition contractSupportsInterface_m :: "BoundContract \<Rightarrow> nat \<Rightarrow> string \<Rightarrow> bool async" where
  "contractSupportsInterface_m contract t interfaceId =
     (let supportsInterface = call_supportsInterface (methods contract)
      in ([SupportsInterfaceCall interfaceId],
          promise_of_callback (supportsInterface t interfaceId)))"

definition contractSupportsMetadataInterface_m :: "BoundContract \<Rightarrow> nat \<Rightarrow> bool async" where
  "contractSupportsMetadataInterface_m contract t =
     contractSupportsInterface_m contract t ERC721_METADATA_INTERFACE_ID_m"

definition contractSupportsEnumerableInterface_m :: "BoundContract \<Rightarrow> nat \<Rightarrow> bool async" where
  "contractSupportsEnumerableInterface_m contract t =
     contractSupportsInterface_m contract t ERC721_ENUMERABLE_INTERFACE_ID_m"

definition getCollectibleTokenId_m ::
  "BoundContract \<Rightarrow> nat \<Rightarrow> string \<Rightarrow> int \<Rightarrow> string async" where
  "getCollectibleTokenId_m contract t selectedAddress0 index =
     (let tokenOfOwnerByIndex = call_tokenOfOwnerByIndex (methods contract)
      in ([TokenOfOwnerByIndexCall selectedAddress0 index],
          promise_of_callback (tokenOfOwnerByIndex t selectedAddress0 index)))"

definition getCollectibleTokenURI :: "BoundContract \<Rightarrow> nat \<Rightarrow> string \<Rightarrow> string async" where
  "getCollectibleTokenURI contract t tokenId =
     (let (calls1, supportsMetadata) = contractSupportsMetadataInterface_m contract t
      in case supportsMetadata of
           Inl e \<Rightarrow> (calls1, Inl e)
         | Inr supported \<Rightarrow>
             if \<not> supported
             then (calls1,
                   Inl (Error ''Contract does not support ERC721 metadata interface.''))
             else
               let tokenURI_method = call_tokenURI (methods contract)
               in (calls1 @ [TokenURICall tokenId],
                   promise_of_callback (tokenURI_method (t + length calls1) tokenId)))"

definition getAssetName_m :: "BoundContract \<Rightarrow> nat \<Rightarrow> string async" where
  "getAssetName_m contract t =
     (let name_method = call_name (methods contract)
      in ([NameCall], promise_of_callback (name_method t)))"

definition getAssetSymbol_m :: "BoundContract \<Rightarrow> nat \<Rightarrow> string async" where
  "getAssetSymbol_m contract t =
     (let symbol_method = call_symbol (methods contract)
      in ([SymbolCall], promise_of_callback (symbol_method t)))"

definition getOwnerOf_m :: "BoundContract \<Rightarrow> nat \<Rightarrow> string \<Rightarrow> string async" where
  "getOwnerOf_m contract t tokenId =
     (let ownerOf = call_ownerOf (methods contract)
      in ([OwnerOfCall tokenId], promise_of_callback (ownerOf t tokenId)))"

section \<open>The preferences controller\<close>

subsection \<open>State\<close>

text \<open>
  \<^verbatim>\<open>Token\<close> and \<^verbatim>\<open>ContactEntry\<close> are imported from \<^verbatim>\<open>TokenRatesController\<close> and
  \<^verbatim>\<open>AddressBookController\<close>, which are not among the sources; their fields are those of the
  objects this controller builds. A \<^verbatim>\<open>Token\<close> is \<^verbatim>\<open>{ address, symbol, decimals }\<close>; the
  controller stores the number \<^verbatim>\<open>decimals\<close> and never computes with it.
\<close>

record Token =
  address :: string
  symbol :: string
  decimals :: int

text \<open>
  A \<^verbatim>\<open>ContactEntry\<close> is \<^verbatim>\<open>{ address, name }\<close>. \<^verbatim>\<open>setAccountLabel\<close> starts from the
  empty object \<^verbatim>\<open>{}\<close> and \<^verbatim>\<open>updateIdentities\<close> spreads one entry over another, so each
  field is optional: \<open>None\<close> is a property the object does not have.
\<close>

record ContactEntry =
  address :: "string option"
  name :: "string option"

definition empty_entry :: ContactEntry where
  "empty_entry = \<lparr>address = None, name = None\<rparr>"

text \<open>\<^verbatim>\<open>{ ...base, ...over }\<close>: the properties of \<open>over\<close> win.\<close>

definition spread :: "ContactEntry \<Rightarrow> ContactEntry \<Rightarrow> ContactEntry" where
  "spread base over =
     \<lparr>address = (case ContactEntry.address over of Some a \<Rightarrow> Some a
                 | None \<Rightarrow> ContactEntry.address base),
      name = (case name over of Some n \<Rightarrow> Some n | None \<Rightarrow> name base)\<rparr>"

text \<open>
  \<^verbatim>\<open>selectedAddress\<close> is declared a string, and \<^verbatim>\<open>removeIdentity\<close> and
  \<^verbatim>\<open>syncIdentities\<close> store \<^verbatim>\<open>xs[0]\<close> of an array that may be empty: \<open>None\<close> is
  \<^verbatim>\<open>undefined\<close>.
\<close>

record PreferencesState =
  featureFlags :: "bool js_object"
  identities :: "ContactEntry js_object"
  lostIdentities :: "ContactEntry js_object"
  selectedAddress :: "string option"
  tokens :: "Token list"

definition defaultState :: PreferencesState where
  "defaultState =
     \<lparr>featureFlags = [], identities = [], lostIdentities = [],
      selectedAddress = Some [], tokens = []\<rparr>"

text \<open>
  Modelled from the spec: \<^verbatim>\<open>BaseController.update(partialState)\<close> is not among the
  sources; the spec says it merges the partial state into the state and notifies the
  subscribers. Each \<^verbatim>\<open>this.update({ f })\<close> below is therefore the record update of the
  field \<open>f\<close>. The objects held in the state are the ones the methods mutate, so the
  mutation and the update agree.

  \<^verbatim>\<open>toChecksumAddress\<close> comes from \<^verbatim>\<open>ethereumjs-util\<close>; it is the parameter \<open>cs\<close> of every
  method that calls it. A parameter \<^verbatim>\<open>address\<close> that the source reassigns to its
  checksummed form is \<open>address0\<close> before and \<open>addr\<close> after.
\<close>

subsection \<open>Methods\<close>

text \<open>The callback of \<^verbatim>\<open>addresses.forEach\<close> in \<^verbatim>\<open>addIdentities\<close>.\<close>

definition addIdentities_each ::
  "(string \<Rightarrow> string) \<Rightarrow> ContactEntry js_object \<Rightarrow> string \<Rightarrow> ContactEntry js_object" where
  "addIdentities_each cs ids address0 =
     (let addr = cs address0 in
      if obj_get ids addr \<noteq> None then ids
      else
        let identityCount = length (obj_keys ids) in
        obj_set addr
          \<lparr>address = Some addr,
           name = Some (''Account '' @ string_of_nat (identityCount + 1))\<rparr> ids)"

definition addIdentities ::
  "(string \<Rightarrow> string) \<Rightarrow> string list \<Rightarrow> PreferencesState \<Rightarrow> PreferencesState" where
  "addIdentities cs addresses s =
     s\<lparr>identities := foldl (addIdentities_each cs) (identities s) addresses\<rparr>"

text \<open>
  \<^verbatim>\<open>tokens.find\<close> followed by \<^verbatim>\<open>tokens.indexOf(previousEntry)\<close>: the index of the first
  token with the address, if there is one.
\<close>

fun find_token_index :: "string \<Rightarrow> Token list \<Rightarrow> nat option" where
  "find_token_index a [] = None"
| "find_token_index a (t # ts) =
     (if Token.address t = a then Some 0
      else map_option Suc (find_token_index a ts))"

definition addToken ::
  "(string \<Rightarrow> string) \<Rightarrow> string \<Rightarrow> string \<Rightarrow> int \<Rightarrow> PreferencesState
     \<Rightarrow> Token list \<times> PreferencesState" where
  "addToken cs address0 symbol0 decimals0 s =
     (let addr = cs address0;
          newEntry = \<lparr>Token.address = addr, symbol = symbol0, decimals = decimals0\<rparr>;
          toks = tokens s;
          toks' = (case find_token_index addr toks of
                     Some previousIndex \<Rightarrow> toks[previousIndex := newEntry]
                   | None \<Rightarrow> toks @ [newEntry])
      in (toks', s\<lparr>tokens := toks'\<rparr>))"

definition removeIdentity ::
  "(string \<Rightarrow> string) \<Rightarrow> string \<Rightarrow> PreferencesState \<Rightarrow> PreferencesState" where
  "removeIdentity cs address0 s =
     (let addr = cs address0;
          ids = identities s
      in if obj_get ids addr = None then s
         else
           let ids' = obj_delete addr ids;
               s1 = s\<lparr>identities := ids'\<rparr>
           in if Some addr = selectedAddress s1
              then s1\<lparr>selectedAddress := first_elem (obj_keys ids')\<rparr>
              else s1)"

definition removeToken ::
  "(string \<Rightarrow> string) \<Rightarrow> string \<Rightarrow> PreferencesState \<Rightarrow> PreferencesState" where
  "removeToken cs address0 s =
     (let addr = cs address0;
          oldTokens = tokens s
      in s\<lparr>tokens := filter (\<lambda>token. Token.address token \<noteq> addr) oldTokens\<rparr>)"

definition setAccountLabel ::
  "(string \<Rightarrow> string) \<Rightarrow> string \<Rightarrow> string \<Rightarrow> PreferencesState \<Rightarrow> PreferencesState" where
  "setAccountLabel cs address0 label s =
     (let addr = cs address0;
          ids = identities s;
          entry = (case obj_get ids addr of Some e \<Rightarrow> e | None \<Rightarrow> empty_entry);
          ids' = obj_set addr (entry\<lparr>name := Some label\<rparr>) ids
      in s\<lparr>identities := ids'\<rparr>)"

text \<open>
  \<^verbatim>\<open>{ ...oldFeatureFlags, ...{ [feature]: activated } }\<close>. A feature name is any string:
  for one that is an array index (\<^verbatim>\<open>"1"\<close>) JavaScript enumerates the key before the
  others, where \<open>obj_set\<close> appends it; the lookups of the flags are the same, the order
  of the keys is not modelled for such names.
\<close>

definition setFeatureFlag :: "string \<Rightarrow> bool \<Rightarrow> PreferencesState \<Rightarrow> PreferencesState" where
  "setFeatureFlag feature activated s =
     (let oldFeatureFlags = featureFlags s
      in s\<lparr>featureFlags := obj_set feature activated oldFeatureFlags\<rparr>)"

text \<open>
  The \<^verbatim>\<open>for (const identity in identities)\<close> loop of \<^verbatim>\<open>syncIdentities\<close>, over the keys
  the object has when the loop starts; a key deleted before its turn is not visited. The
  pair is \<^verbatim>\<open>(identities, newlyLost)\<close>.
\<close>

fun syncIdentities_loop ::
  "string list \<Rightarrow> string list \<Rightarrow> ContactEntry js_object \<times> ContactEntry js_object
     \<Rightarrow> ContactEntry js_object \<times> ContactEntry js_object" where
  "syncIdentities_loop addresses [] (ids, newlyLost) = (ids, newlyLost)"
| "syncIdentities_loop addresses (identity # rest) (ids, newlyLost) =
     (case obj_get ids identity of
        None \<Rightarrow> syncIdentities_loop addresses rest (ids, newlyLost)
      | Some entry \<Rightarrow>
          if identity \<notin> set addresses
          then syncIdentities_loop addresses rest
                 (obj_delete identity ids, obj_set identity entry newlyLost)
          else syncIdentities_loop addresses rest (ids, newlyLost))"

text \<open>The \<^verbatim>\<open>for (const key in newlyLost)\<close> loop.\<close>

definition copy_lost ::
  "ContactEntry js_object \<Rightarrow> ContactEntry js_object \<Rightarrow> ContactEntry js_object" where
  "copy_lost newlyLost lost = foldl (\<lambda>l p. obj_set (fst p) (snd p) l) lost newlyLost"

definition syncIdentities ::
  "(string \<Rightarrow> string) \<Rightarrow> string list \<Rightarrow> PreferencesState
     \<Rightarrow> string option \<times> PreferencesState" where
  "syncIdentities cs addresses0 s =
     (let addresses = map cs addresses0;
          (ids, newlyLost) =
             syncIdentities_loop addresses (obj_keys (identities s)) (identities s, []);
          lost = (if length (obj_keys newlyLost) > 0
                  then copy_lost newlyLost (lostIdentities s)
                  else lostIdentities s);
          s1 = s\<lparr>identities := ids, lostIdentities := lost\<rparr>;
          s2 = addIdentities cs addresses s1;
          s3 = (if selectedAddress s2 \<notin> Some ` set addresses
                then s2\<lparr>selectedAddress := first_elem addresses\<rparr>
                else s2)
      in (selectedAddress s3, s3))"

text \<open>
  The reducer of \<^verbatim>\<open>updateIdentities\<close>; \<open>(index, addr)\<close> are its \<^verbatim>\<open>index\<close> and
  \<^verbatim>\<open>address\<close> arguments.
\<close>

definition updateIdentities_each ::
  "ContactEntry js_object \<Rightarrow> ContactEntry js_object \<Rightarrow> nat \<times> string
     \<Rightarrow> ContactEntry js_object" where
  "updateIdentities_each oldIdentities ids ia =
     (case ia of (index, addr) \<Rightarrow>
        obj_set addr
          (spread
             \<lparr>address = Some addr,
              name = Some (''Account '' @ string_of_nat (index + 1))\<rparr>
             (case obj_get oldIdentities addr of Some e \<Rightarrow> e | None \<Rightarrow> empty_entry))
          ids)"

definition updateIdentities ::
  "(string \<Rightarrow> string) \<Rightarrow> string list \<Rightarrow> PreferencesState \<Rightarrow> PreferencesState" where
  "updateIdentities cs addresses0 s =
     (let addresses = map cs addresses0;
          oldIdentities = identities s;
          ids = foldl (updateIdentities_each oldIdentities) [] (enumerate 0 addresses)
      in s\<lparr>identities := ids\<rparr>)"

subsection \<open>The invariant of the identities\<close>

text \<open>
  A property, not a part of the program: every key of \<^verbatim>\<open>identities\<close> is the checksummed
  form of the \<^verbatim>\<open>address\<close> field of the record stored under it.
\<close>

definition identities_keyed :: "(string \<Rightarrow> string) \<Rightarrow> PreferencesState \<Rightarrow> bool" where
  "identities_keyed cs s =
     (\<forall>p \<in> set (identities s). \<exists>a. ContactEntry.address (snd p) = Some a \<and> fst p = cs a)"

section \<open>Concrete inputs for the examples\<close>

text \<open>
  The values below are not part of the program: they are the inputs at which the
  examples further down run it. The constants are those of the ERC-721 standard; the
  contract answers \<^verbatim>\<open>supportsInterface\<close> as its first two parameters say and fails
  \<^verbatim>\<open>symbol\<close> with its third when that is an error.
\<close>

definition example_constants :: Constants where
  "example_constants =
     \<lparr>ERC721_INTERFACE_ID = ''0x80ac58cd'', ERC721_METADATA_INTERFACE_ID = ''0x5b5e139f'',
      ERC721_ENUMERABLE_INTERFACE_ID = ''0x780e9d63'', ERC721 = ''ERC721''\<rparr>"

definition example_contract :: "bool \<Rightarrow> bool \<Rightarrow> js_error option \<Rightarrow> Contract" where
  "example_contract base meta symbol_error =
     \<lparr>call_supportsInterface =
        (\<lambda>t interfaceId.
           (None, if interfaceId = ''0x80ac58cd'' then base
                  else if interfaceId = ''0x5b5e139f'' then meta else False)),
      call_tokenOfOwnerByIndex = (\<lambda>t owner index. (None, ''7'')),
      call_tokenURI = (\<lambda>t tokenId. (None, ''https://example.org/'' @ tokenId)),
      call_name = (\<lambda>t. (None, ''Example'')),
      call_symbol = (\<lambda>t. (symbol_error, ''EX'')),
      call_ownerOf = (\<lambda>t tokenId. (None, ''0xOwner''))\<rparr>"

definition example_web3 :: "bool \<Rightarrow> bool \<Rightarrow> js_error option \<Rightarrow> Web3" where
  "example_web3 base meta symbol_error =
     \<lparr>eth_contract_at = (\<lambda>addr. example_contract base meta symbol_error)\<rparr>"

text \<open>
  A contract that supports both interfaces and fails the metadata check, \<^verbatim>\<open>symbol\<close>,
  \<^verbatim>\<open>name\<close> or \<^verbatim>\<open>tokenURI\<close> with the error given for it, if one is given.
\<close>

definition example_failing_contract ::
  "js_error option \<Rightarrow> js_error option \<Rightarrow> js_error option \<Rightarrow> js_error option \<Rightarrow> Contract" where
  "example_failing_contract metadata_error symbol_error name_error tokenURI_error =
     \<lparr>call_supportsInterface =
        (\<lambda>t interfaceId.
           (if interfaceId = ''0x5b5e139f'' then metadata_error else None, True)),
      call_tokenOfOwnerByIndex = (\<lambda>t owner index. (None, ''7'')),
      call_tokenURI = (\<lambda>t tokenId. (tokenURI_error, ''https://example.org/'' @ tokenId)),
      call_name = (\<lambda>t. (name_error, ''Example'')),
      call_symbol = (\<lambda>t. (symbol_error, ''EX'')),
      call_ownerOf = (\<lambda>t tokenId. (None, ''0xOwner''))\<rparr>"

definition example_failing_web3 ::
  "js_error option \<Rightarrow> js_error option \<Rightarrow> js_error option \<Rightarrow> js_error option \<Rightarrow> Web3" where
  "example_failing_web3 metadata_error symbol_error name_error tokenURI_error =
     \<lparr>eth_contract_at =
        (\<lambda>addr. example_failing_contract metadata_error symbol_error name_error
                  tokenURI_error)\<rparr>"

text \<open>
  A stand-in for \<^verbatim>\<open>toChecksumAddress\<close>: it writes the hexadecimal digits \<^verbatim>\<open>a\<close> to \<^verbatim>\<open>f\<close>
  in upper case, so that two spellings of an address that differ in case have one
  checksummed form.
\<close>

definition example_checksum :: "string \<Rightarrow> string" where
  "example_checksum a =
     map (\<lambda>c. case map_of [(CHR ''a'', CHR ''A''), (CHR ''b'', CHR ''B''), (CHR ''c'', CHR ''C''),
                            (CHR ''d'', CHR ''D''), (CHR ''e'', CHR ''E''), (CHR ''f'', CHR ''F'')] c of
               Some u \<Rightarrow> u | None \<Rightarrow> c) a"

text \<open>A controller with two identities, the first renamed and selected.\<close>

definition example_state :: PreferencesState where
  "example_state =
     \<lparr>featureFlags = [],
      identities =
        [(''0x1'', \<lparr>address = Some ''0x1'', name = Some ''Main''\<rparr>),
         (''0x2'', \<lparr>address = Some ''0x2'', name = Some ''Account 2''\<rparr>)],
      lostIdentities = [], selectedAddress = Some ''0x1'', tokens = []\<rparr>"

section \<open>Properties of objects\<close>

lemma obj_get_set: "obj_get (obj_set k v obj) k' = (if k' = k then Some v else obj_get obj k')"
  by (induction obj) (auto simp: obj_get_def)

lemma obj_keys_set:
  "obj_keys (obj_set k v obj) = (if k \<in> set (obj_keys obj) then obj_keys obj else obj_keys obj @ [k])"
  by (induction obj) (auto simp: obj_keys_def)

lemma obj_set_absent: "k \<notin> set (obj_keys obj) \<Longrightarrow> obj_set k v obj = obj @ [(k, v)]"
  by (induction obj) (auto simp: obj_keys_def)

lemma obj_get_None_iff: "obj_get obj k = None \<longleftrightarrow> k \<notin> set (obj_keys obj)"
  by (simp add: obj_get_def obj_keys_def map_of_eq_None_iff)

lemma obj_get_delete: "obj_get (obj_delete k obj) k' = (if k' = k then None else obj_get obj k')"
  by (induction obj) (auto simp: obj_get_def obj_delete_def)

lemma obj_keys_delete: "obj_keys (obj_delete k obj) = removeAll k (obj_keys obj)"
  by (induction obj) (auto simp: obj_keys_def obj_delete_def)

lemma distinct_obj_set: "distinct (obj_keys obj) \<Longrightarrow> distinct (obj_keys (obj_set k v obj))"
  by (simp add: obj_keys_set)


lemma obj_keys_filter_keys:
  "set (obj_keys (filter (\<lambda>p. fst p \<in> S) obj)) = set (obj_keys obj) \<inter> S"
  by (auto simp: obj_keys_def)



section \<open>Properties of the preferences controller\<close>

subsection \<open>\<^verbatim>\<open>addToken\<close>\<close>

lemma find_token_index_None:
  "find_token_index a ts = None \<longleftrightarrow> (\<forall>t \<in> set ts. Token.address t \<noteq> a)"
  by (induction ts) auto

lemma find_token_index_Some:
  "find_token_index a ts = Some i \<Longrightarrow>
     i < length ts \<and> Token.address (ts ! i) = a \<and> (\<forall>j<i. Token.address (ts ! j) \<noteq> a)"
proof (induction ts arbitrary: i)
  case Nil
  then show ?case by simp
next
  case (Cons t ts)
  show ?case
  proof (cases "Token.address t = a")
    case True
    with Cons.prems show ?thesis by simp
  next
    case False
    with Cons.prems obtain i' where i': "find_token_index a ts = Some i'" "i = Suc i'"
      by auto
    from Cons.IH [OF i'(1)] False i'(2) show ?thesis
      by (auto simp: nth_Cons split: nat.splits)
  qed
qed

lemma addToken_fst:
  "fst (addToken cs address0 symbol0 decimals0 s) =
     (case find_token_index (cs address0) (tokens s) of
        Some i \<Rightarrow> (tokens s)[i := \<lparr>Token.address = cs address0, symbol = symbol0,
                                    decimals = decimals0\<rparr>]
      | None \<Rightarrow> tokens s @ [\<lparr>Token.address = cs address0, symbol = symbol0,
                                decimals = decimals0\<rparr>])"
  by (simp add: addToken_def Let_def)

lemma addToken_snd:
  "snd (addToken cs address0 symbol0 decimals0 s) =
     s\<lparr>tokens := fst (addToken cs address0 symbol0 decimals0 s)\<rparr>"
  by (simp add: addToken_def Let_def)

text \<open>
  Claim C9. If some token of the list has the checksummed address, \<^verbatim>\<open>addToken\<close>
  replaces the first such token, where it stands, by
  \<^verbatim>\<open>{ address, symbol, decimals }\<close>; otherwise it appends that entry. Symbol and
  decimals are stored as given, whatever they are. The result is the new list, which is
  also the \<^verbatim>\<open>tokens\<close> of the new state, and nothing else changes. In particular a
  second \<^verbatim>\<open>addToken\<close> whose address has the same checksummed form overwrites an entry
  of the list and adds none.
\<close>

theorem addToken_replaces_or_appends:
  "((\<exists>t \<in> set (tokens s). Token.address t = cs address0) \<longrightarrow>
      (\<exists>i < length (tokens s).
          Token.address (tokens s ! i) = cs address0 \<and>
          (\<forall>j<i. Token.address (tokens s ! j) \<noteq> cs address0) \<and>
          fst (addToken cs address0 symbol0 decimals0 s) =
            (tokens s)[i := \<lparr>Token.address = cs address0, symbol = symbol0,
                               decimals = decimals0\<rparr>])) \<and>
   ((\<forall>t \<in> set (tokens s). Token.address t \<noteq> cs address0) \<longrightarrow>
      fst (addToken cs address0 symbol0 decimals0 s) =
        tokens s @ [\<lparr>Token.address = cs address0, symbol = symbol0, decimals = decimals0\<rparr>]) \<and>
   snd (addToken cs address0 symbol0 decimals0 s) =
     s\<lparr>tokens := fst (addToken cs address0 symbol0 decimals0 s)\<rparr> \<and>
   (cs address1 = cs address0 \<longrightarrow>
      (\<exists>i < length (fst (addToken cs address0 symbol0 decimals0 s)).
          fst (addToken cs address1 symbol1 decimals1
                 (snd (addToken cs address0 symbol0 decimals0 s))) =
            (fst (addToken cs address0 symbol0 decimals0 s))
              [i := \<lparr>Token.address = cs address1, symbol = symbol1, decimals = decimals1\<rparr>]))"
proof -
  let ?new = "\<lparr>Token.address = cs address0, symbol = symbol0, decimals = decimals0\<rparr>"
  let ?r = "addToken cs address0 symbol0 decimals0 s"
  have found: "\<exists>i < length (tokens s).
          Token.address (tokens s ! i) = cs address0 \<and>
          (\<forall>j<i. Token.address (tokens s ! j) \<noteq> cs address0) \<and>
          fst ?r = (tokens s)[i := ?new]"
    if "\<exists>t \<in> set (tokens s). Token.address t = cs address0"
  proof -
    from that obtain i where i: "find_token_index (cs address0) (tokens s) = Some i"
      using find_token_index_None [of "cs address0" "tokens s"] by auto
    have "fst ?r = (tokens s)[i := ?new]"
      using i by (simp add: addToken_fst)
    with find_token_index_Some [OF i] show ?thesis by blast
  qed
  have absent: "fst ?r = tokens s @ [?new]"
    if "\<forall>t \<in> set (tokens s). Token.address t \<noteq> cs address0"
    using that find_token_index_None [of "cs address0" "tokens s"]
    by (simp add: addToken_fst)
  have state: "snd ?r = s\<lparr>tokens := fst ?r\<rparr>"
    by (rule addToken_snd)
  have present: "\<exists>t \<in> set (fst ?r). Token.address t = cs address0"
  proof (cases "find_token_index (cs address0) (tokens s)")
    case None
    then show ?thesis by (simp add: addToken_fst)
  next
    case (Some i)
    from find_token_index_Some [OF Some] have "i < length (tokens s)" by simp
    then have "?new \<in> set ((tokens s)[i := ?new])"
      by (simp add: set_update_memI)
    moreover have "Token.address ?new = cs address0" by simp
    ultimately have "\<exists>t \<in> set ((tokens s)[i := ?new]). Token.address t = cs address0"
      by blast
    with Some show ?thesis by (simp add: addToken_fst)
  qed
  have again: "\<exists>i < length (fst ?r).
          fst (addToken cs address1 symbol1 decimals1 (snd ?r)) =
            (fst ?r)[i := \<lparr>Token.address = cs address1, symbol = symbol1, decimals = decimals1\<rparr>]"
    if eq: "cs address1 = cs address0"
  proof -
    have toks: "tokens (snd ?r) = fst ?r" by (simp add: addToken_snd)
    from present obtain i where i: "find_token_index (cs address0) (fst ?r) = Some i"
      using find_token_index_None [of "cs address0" "fst ?r"] by auto
    from find_token_index_Some [OF i] have "i < length (fst ?r)" by simp
    moreover have "fst (addToken cs address1 symbol1 decimals1 (snd ?r)) =
            (fst ?r)[i := \<lparr>Token.address = cs address1, symbol = symbol1, decimals = decimals1\<rparr>]"
      unfolding addToken_fst [of cs address1] toks eq i by simp
    ultimately show ?thesis by blast
  qed
  from found absent state again show ?thesis by blast
qed

theorem addToken_replaces_or_appends_witness:
  "fst (addToken example_checksum ''0xABC'' ''TKN2'' 6
          (snd (addToken example_checksum ''0xabc'' ''TKN'' 18 defaultState))) =
     [\<lparr>Token.address = ''0xABC'', symbol = ''TKN2'', decimals = 6\<rparr>]"
proof -
  let ?s = "defaultState"
  have none: "\<forall>t \<in> set (tokens ?s). Token.address t \<noteq> example_checksum ''0xabc''"
    by (simp add: defaultState_def)
  have eq: "example_checksum ''0xABC'' = example_checksum ''0xabc''"
    by (simp add: example_checksum_def)
  have cs: "example_checksum ''0xabc'' = ''0xABC''"
    by (simp add: example_checksum_def)
  note inst = addToken_replaces_or_appends
               [of ?s example_checksum "''0xabc''" "''TKN''" 18 "''0xABC''" "''TKN2''" 6]
  from inst none have first: "fst (addToken example_checksum ''0xabc'' ''TKN'' 18 ?s) =
      [\<lparr>Token.address = ''0xABC'', symbol = ''TKN'', decimals = 18\<rparr>]"
    unfolding cs by (simp add: defaultState_def)
  from inst eq obtain i where
    "i < length (fst (addToken example_checksum ''0xabc'' ''TKN'' 18 ?s))"
    "fst (addToken example_checksum ''0xABC'' ''TKN2'' 6
            (snd (addToken example_checksum ''0xabc'' ''TKN'' 18 ?s))) =
       (fst (addToken example_checksum ''0xabc'' ''TKN'' 18 ?s))
         [i := \<lparr>Token.address = example_checksum ''0xABC'', symbol = ''TKN2'', decimals = 6\<rparr>]"
    by blast
  then show ?thesis unfolding first eq cs by simp
qed

subsection \<open>\<^verbatim>\<open>addIdentities\<close>\<close>

lemma addIdentities_each_present:
  "cs a \<in> set (obj_keys ids) \<Longrightarrow> addIdentities_each cs ids a = ids"
  by (simp add: addIdentities_each_def obj_get_None_iff)

lemma addIdentities_each_absent:
  "cs a \<notin> set (obj_keys ids) \<Longrightarrow>
     addIdentities_each cs ids a =
       ids @ [(cs a, \<lparr>address = Some (cs a),
                       name = Some (''Account '' @ string_of_nat (length ids + 1))\<rparr>)]"
  by (simp add: addIdentities_each_def obj_get_None_iff obj_set_absent Let_def)
     (simp add: obj_keys_def)

lemma addIdentities_fold:
  "\<exists>new. foldl (addIdentities_each cs) ids as = ids @ new \<and>
         set (obj_keys new) = cs ` set as - set (obj_keys ids) \<and>
         distinct (obj_keys new) \<and>
         (\<forall>j<length new. new ! j =
            (fst (new ! j),
             \<lparr>address = Some (fst (new ! j)),
              name = Some (''Account '' @ string_of_nat (length ids + j + 1))\<rparr>))"
proof (induction as arbitrary: ids)
  case Nil
  show ?case by (simp add: obj_keys_def)
next
  case (Cons a as)
  show ?case
  proof (cases "cs a \<in> set (obj_keys ids)")
    case True
    from Cons.IH [of ids] obtain new where new:
      "foldl (addIdentities_each cs) ids as = ids @ new"
      "set (obj_keys new) = cs ` set as - set (obj_keys ids)"
      "distinct (obj_keys new)"
      "\<forall>j<length new. new ! j =
            (fst (new ! j),
             \<lparr>address = Some (fst (new ! j)),
              name = Some (''Account '' @ string_of_nat (length ids + j + 1))\<rparr>)"
      by blast
    have "set (obj_keys new) = cs ` set (a # as) - set (obj_keys ids)"
      using new(2) True by auto
    with new(1,3,4) True show ?thesis
      by (auto simp: addIdentities_each_present intro!: exI [of _ new])
  next
    case False
    let ?e = "(cs a, \<lparr>address = Some (cs a),
                       name = Some (''Account '' @ string_of_nat (length ids + 1))\<rparr>)"
    from Cons.IH [of "ids @ [?e]"] obtain new where new:
      "foldl (addIdentities_each cs) (ids @ [?e]) as = (ids @ [?e]) @ new"
      "set (obj_keys new) = cs ` set as - set (obj_keys (ids @ [?e]))"
      "distinct (obj_keys new)"
      "\<forall>j<length new. new ! j =
            (fst (new ! j),
             \<lparr>address = Some (fst (new ! j)),
              name = Some (''Account '' @ string_of_nat (length (ids @ [?e]) + j + 1))\<rparr>)"
      by blast
    have keys: "set (obj_keys (?e # new)) = cs ` set (a # as) - set (obj_keys ids)"
      using new(2) False by (auto simp: obj_keys_def)
    have dist: "distinct (obj_keys (?e # new))"
      using new(2,3) by (auto simp: obj_keys_def)
    have pos: "\<forall>j<length (?e # new). (?e # new) ! j =
            (fst ((?e # new) ! j),
             \<lparr>address = Some (fst ((?e # new) ! j)),
              name = Some (''Account '' @ string_of_nat (length ids + j + 1))\<rparr>)"
    proof (intro allI impI)
      fix j assume j: "j < length (?e # new)"
      show "(?e # new) ! j =
            (fst ((?e # new) ! j),
             \<lparr>address = Some (fst ((?e # new) ! j)),
              name = Some (''Account '' @ string_of_nat (length ids + j + 1))\<rparr>)"
      proof (cases j)
        case 0
        then show ?thesis by simp
      next
        case (Suc j')
        with j have "j' < length new" by simp
        with new(4) have "new ! j' =
            (fst (new ! j'),
             \<lparr>address = Some (fst (new ! j')),
              name = Some (''Account '' @ string_of_nat (length (ids @ [?e]) + j' + 1))\<rparr>)"
          by blast
        with Suc show ?thesis by simp
      qed
    qed
    have "foldl (addIdentities_each cs) ids (a # as) = ids @ (?e # new)"
      using new(1) False by (simp add: addIdentities_each_absent)
    with keys dist pos show ?thesis by blast
  qed
qed

text \<open>
  Claim C8. \<^verbatim>\<open>addIdentities\<close> goes through the input in order. An address whose
  checksummed form is a key is skipped; otherwise the record
  \<^verbatim>\<open>{ name: "Account N", address }\<close> is appended under the checksummed address, \<open>N\<close>
  being the number of identities at that moment plus one. Over the whole input: the
  identities there were stay as they were, the keys are the old ones and the checksummed
  inputs, each new key is inserted once (a duplicate in the input is skipped as present),
  and the entry at position \<open>p\<close> among the new ones is named \<^verbatim>\<open>Account p+1\<close>.
\<close>

theorem addIdentities_numbering:
  "(cs a \<in> set (obj_keys (identities s)) \<longrightarrow> addIdentities cs [a] s = s) \<and>
   (cs a \<notin> set (obj_keys (identities s)) \<longrightarrow>
      addIdentities cs [a] s =
        s\<lparr>identities := identities s @
            [(cs a, \<lparr>address = Some (cs a),
                      name = Some (''Account '' @
                                   string_of_nat (length (obj_keys (identities s)) + 1))\<rparr>)]\<rparr>) \<and>
   addIdentities cs (a # addresses) s = addIdentities cs addresses (addIdentities cs [a] s) \<and>
   addIdentities cs [] s = s \<and>
   take (length (identities s)) (identities (addIdentities cs addresses s)) = identities s \<and>
   set (obj_keys (identities (addIdentities cs addresses s))) =
     set (obj_keys (identities s)) \<union> cs ` set addresses \<and>
   distinct (drop (length (identities s)) (obj_keys (identities (addIdentities cs addresses s)))) \<and>
   (\<forall>p. length (identities s) \<le> p \<and> p < length (identities (addIdentities cs addresses s)) \<longrightarrow>
        fst (identities (addIdentities cs addresses s) ! p) \<notin> set (obj_keys (identities s)) \<and>
        snd (identities (addIdentities cs addresses s) ! p) =
          \<lparr>address = Some (fst (identities (addIdentities cs addresses s) ! p)),
           name = Some (''Account '' @ string_of_nat (p + 1))\<rparr>)"
proof -
  have one_present: "addIdentities cs [a] s = s" if "cs a \<in> set (obj_keys (identities s))"
    using that by (simp add: addIdentities_def addIdentities_each_present)
  have one_absent: "addIdentities cs [a] s =
        s\<lparr>identities := identities s @
            [(cs a, \<lparr>address = Some (cs a),
                      name = Some (''Account '' @
                                   string_of_nat (length (obj_keys (identities s)) + 1))\<rparr>)]\<rparr>"
    if "cs a \<notin> set (obj_keys (identities s))"
    using that by (simp add: addIdentities_def addIdentities_each_absent) (simp add: obj_keys_def)
  have step: "addIdentities cs (a # addresses) s =
                addIdentities cs addresses (addIdentities cs [a] s)"
    by (simp add: addIdentities_def)
  have nil: "addIdentities cs [] s = s"
    by (simp add: addIdentities_def)
  from addIdentities_fold [of cs "identities s" addresses] obtain new where new:
      "identities (addIdentities cs addresses s) = identities s @ new"
      "set (obj_keys new) = cs ` set addresses - set (obj_keys (identities s))"
      "distinct (obj_keys new)"
      "\<forall>j<length new. new ! j =
            (fst (new ! j),
             \<lparr>address = Some (fst (new ! j)),
              name = Some (''Account '' @ string_of_nat (length (identities s) + j + 1))\<rparr>)"
    by (auto simp: addIdentities_def)
  have prefix: "take (length (identities s)) (identities (addIdentities cs addresses s)) =
                  identities s"
    by (simp add: new(1))
  have keys: "set (obj_keys (identities (addIdentities cs addresses s))) =
     set (obj_keys (identities s)) \<union> cs ` set addresses"
    using new(2) by (auto simp: new(1) obj_keys_def)
  have dist: "distinct (drop (length (identities s))
                 (obj_keys (identities (addIdentities cs addresses s))))"
    using new(3) by (simp add: new(1) obj_keys_def)
  have pos: "fst (identities (addIdentities cs addresses s) ! p) \<notin> set (obj_keys (identities s)) \<and>
        snd (identities (addIdentities cs addresses s) ! p) =
          \<lparr>address = Some (fst (identities (addIdentities cs addresses s) ! p)),
           name = Some (''Account '' @ string_of_nat (p + 1))\<rparr>"
    if p: "length (identities s) \<le> p \<and> p < length (identities (addIdentities cs addresses s))"
    for p
  proof -
    let ?j = "p - length (identities s)"
    from p have p1: "length (identities s) \<le> p"
      and p2: "p < length (identities s) + length new"
      by (simp_all add: new(1))
    from p1 p2 have j: "?j < length new" by arith
    from p1 have nth: "identities (addIdentities cs addresses s) ! p = new ! ?j"
      by (simp add: new(1) nth_append)
    from j have "fst (new ! ?j) \<in> set (obj_keys new)"
      by (simp add: obj_keys_def)
    with new(2) have notin: "fst (new ! ?j) \<notin> set (obj_keys (identities s))" by blast
    from new(4) j have "new ! ?j =
            (fst (new ! ?j),
             \<lparr>address = Some (fst (new ! ?j)),
              name = Some (''Account '' @ string_of_nat (length (identities s) + ?j + 1))\<rparr>)"
      by blast
    then have "snd (new ! ?j) =
             \<lparr>address = Some (fst (new ! ?j)),
              name = Some (''Account '' @ string_of_nat (length (identities s) + ?j + 1))\<rparr>"
      by (metis snd_conv)
    moreover from p1 have "length (identities s) + ?j + 1 = p + 1" by simp
    ultimately show ?thesis using notin unfolding nth by simp
  qed
  from one_present one_absent step nil prefix keys dist pos show ?thesis by blast
qed


theorem addIdentities_numbering_witness:
  "identities (addIdentities (\<lambda>a. a) [''0x1'', ''0x2''] defaultState) =
     [(''0x1'', \<lparr>address = Some ''0x1'', name = Some ''Account 1''\<rparr>),
      (''0x2'', \<lparr>address = Some ''0x2'', name = Some ''Account 2''\<rparr>)] \<and>
   identities (addIdentities (\<lambda>a. a) [''0x1'', ''0x1'', ''0x2''] defaultState) =
     [(''0x1'', \<lparr>address = Some ''0x1'', name = Some ''Account 1''\<rparr>),
      (''0x2'', \<lparr>address = Some ''0x2'', name = Some ''Account 2''\<rparr>)]"
proof -
  let ?cs = "\<lambda>a::string. a"
  let ?s1 = "defaultState\<lparr>identities :=
               [(''0x1'', \<lparr>address = Some ''0x1'', name = Some ''Account 1''\<rparr>)]\<rparr>"
  let ?s2 = "defaultState\<lparr>identities :=
               [(''0x1'', \<lparr>address = Some ''0x1'', name = Some ''Account 1''\<rparr>),
                (''0x2'', \<lparr>address = Some ''0x2'', name = Some ''Account 2''\<rparr>)]\<rparr>"
  have n1: "string_of_nat (Suc 0) = ''1''" and n2: "string_of_nat (Suc (Suc 0)) = ''2''"
    by (simp_all add: string_of_nat.simps digit_char_def)
  have a1: "?cs ''0x1'' \<notin> set (obj_keys (identities defaultState))"
    by (simp add: defaultState_def obj_keys_def)
  have a2: "?cs ''0x2'' \<notin> set (obj_keys (identities ?s1))"
    by (simp add: obj_keys_def)
  have p1: "?cs ''0x1'' \<in> set (obj_keys (identities ?s1))"
    by (simp add: obj_keys_def)
  from addIdentities_numbering [of ?cs "''0x1''" defaultState "[]"] a1
  have "addIdentities ?cs [''0x1''] defaultState =
          defaultState\<lparr>identities := identities defaultState @
            [(?cs ''0x1'', \<lparr>address = Some (?cs ''0x1''),
               name = Some (''Account '' @
                 string_of_nat (length (obj_keys (identities defaultState)) + 1))\<rparr>)]\<rparr>"
    by blast
  then have one: "addIdentities ?cs [''0x1''] defaultState = ?s1"
    by (simp add: defaultState_def obj_keys_def n1)
  from addIdentities_numbering [of ?cs "''0x2''" ?s1 "[]"] a2
  have "addIdentities ?cs [''0x2''] ?s1 =
          ?s1\<lparr>identities := identities ?s1 @
            [(?cs ''0x2'', \<lparr>address = Some (?cs ''0x2''),
               name = Some (''Account '' @
                 string_of_nat (length (obj_keys (identities ?s1)) + 1))\<rparr>)]\<rparr>"
    by blast
  then have two: "addIdentities ?cs [''0x2''] ?s1 = ?s2"
    by (simp add: obj_keys_def n2)
  have dup: "addIdentities ?cs [''0x1''] ?s1 = ?s1"
    using addIdentities_numbering [of ?cs "''0x1''" ?s1 "[]"] p1 by blast
  have "addIdentities ?cs [''0x1'', ''0x2''] defaultState =
          addIdentities ?cs [''0x2''] (addIdentities ?cs [''0x1''] defaultState)"
    using addIdentities_numbering [of ?cs "''0x1''" defaultState "[''0x2'']"] by blast
  then have r1: "addIdentities ?cs [''0x1'', ''0x2''] defaultState = ?s2"
    unfolding one two .
  have "addIdentities ?cs [''0x1'', ''0x1'', ''0x2''] defaultState =
          addIdentities ?cs [''0x1'', ''0x2''] (addIdentities ?cs [''0x1''] defaultState)"
    using addIdentities_numbering [of ?cs "''0x1''" defaultState "[''0x1'', ''0x2'']"] by blast
  also have "\<dots> = addIdentities ?cs [''0x2''] (addIdentities ?cs [''0x1''] ?s1)"
    unfolding one
    using addIdentities_numbering [of ?cs "''0x1''" ?s1 "[''0x2'']"] by blast
  finally have r2: "addIdentities ?cs [''0x1'', ''0x1'', ''0x2''] defaultState = ?s2"
    unfolding dup two .
  show ?thesis unfolding r1 r2 by simp
qed

subsection \<open>\<^verbatim>\<open>syncIdentities\<close>\<close>

lemma example_checksum_idem: "example_checksum (example_checksum a) = example_checksum a"
  by (induction a) (auto simp: example_checksum_def)

lemma syncIdentities_loop_ids:
  "fst (syncIdentities_loop A ks (ids, nl)) =
     filter (\<lambda>p. fst p \<notin> set ks \<or> fst p \<in> set A) ids"
proof (induction ks arbitrary: ids nl)
  case Nil
  show ?case by simp
next
  case (Cons k ks)
  show ?case
  proof (cases "obj_get ids k")
    case None
    then have "k \<notin> fst ` set ids"
      by (simp add: obj_get_None_iff obj_keys_def)
    then have "filter (\<lambda>p. fst p \<notin> set (k # ks) \<or> fst p \<in> set A) ids =
               filter (\<lambda>p. fst p \<notin> set ks \<or> fst p \<in> set A) ids"
      by (intro filter_cong) auto
    with None Cons.IH [of ids nl] show ?thesis by simp
  next
    case (Some entry)
    show ?thesis
    proof (cases "k \<in> set A")
      case True
      then have "filter (\<lambda>p. fst p \<notin> set (k # ks) \<or> fst p \<in> set A) ids =
                 filter (\<lambda>p. fst p \<notin> set ks \<or> fst p \<in> set A) ids"
        by (intro filter_cong) auto
      with Some True Cons.IH [of ids nl] show ?thesis by simp
    next
      case False
      then have "filter (\<lambda>p. fst p \<notin> set (k # ks) \<or> fst p \<in> set A) ids =
                 filter (\<lambda>p. fst p \<notin> set ks \<or> fst p \<in> set A) (obj_delete k ids)"
        unfolding obj_delete_def filter_filter by (intro filter_cong) auto
      with Some False Cons.IH [of "obj_delete k ids" "obj_set k entry nl"] show ?thesis
        by simp
    qed
  qed
qed

lemma syncIdentities_loop_newlyLost:
  "obj_get (snd (syncIdentities_loop A ks (ids, nl))) k =
     (if k \<in> set ks \<and> k \<notin> set A \<and> obj_get ids k \<noteq> None then obj_get ids k
      else obj_get nl k)"
proof (induction ks arbitrary: ids nl)
  case Nil
  show ?case by simp
next
  case (Cons k' ks)
  show ?case
  proof (cases "obj_get ids k'")
    case None
    with Cons.IH [of ids nl] show ?thesis by auto
  next
    case (Some entry)
    show ?thesis
    proof (cases "k' \<in> set A")
      case True
      with Some Cons.IH [of ids nl] show ?thesis by auto
    next
      case False
      with Some Cons.IH [of "obj_delete k' ids" "obj_set k' entry nl"] show ?thesis
        by (auto simp: obj_get_delete obj_get_set)
    qed
  qed
qed

lemma syncIdentities_loop_distinct:
  "distinct (obj_keys nl) \<Longrightarrow> distinct (obj_keys (snd (syncIdentities_loop A ks (ids, nl))))"
proof (induction ks arbitrary: ids nl)
  case Nil
  then show ?case by simp
next
  case (Cons k ks)
  then show ?case
    by (cases "obj_get ids k") (auto simp: distinct_obj_set)
qed

lemma copy_lost_get:
  "distinct (obj_keys nl) \<Longrightarrow>
     obj_get (copy_lost nl lost) k =
       (case obj_get nl k of Some v \<Rightarrow> Some v | None \<Rightarrow> obj_get lost k)"
proof (induction nl arbitrary: lost)
  case Nil
  show ?case by (simp add: copy_lost_def obj_get_def)
next
  case (Cons p nl)
  from Cons.prems have d: "distinct (obj_keys nl)" and p: "fst p \<notin> set (obj_keys nl)"
    by (simp_all add: obj_keys_def)
  have step: "copy_lost (p # nl) lost = copy_lost nl (obj_set (fst p) (snd p) lost)"
    by (simp add: copy_lost_def)
  have head: "obj_get (p # nl) k = (if k = fst p then Some (snd p) else obj_get nl k)"
    by (cases p) (simp add: obj_get_def)
  have ih: "obj_get (copy_lost nl (obj_set (fst p) (snd p) lost)) k =
       (case obj_get nl k of Some v \<Rightarrow> Some v
        | None \<Rightarrow> obj_get (obj_set (fst p) (snd p) lost) k)"
    by (rule Cons.IH [OF d])
  show ?case
  proof (cases "k = fst p")
    case True
    with p have "obj_get nl k = None" by (simp add: obj_get_None_iff)
    with True ih show ?thesis
      unfolding step head by (simp add: obj_get_set)
  next
    case False
    then have "obj_get (obj_set (fst p) (snd p) lost) k = obj_get lost k"
      by (simp add: obj_get_set)
    with False ih show ?thesis
      unfolding step head by (simp split: option.splits)
  qed
qed

lemma syncIdentities_identities:
  "identities (snd (syncIdentities cs addresses s)) =
     foldl (addIdentities_each cs)
       (filter (\<lambda>p. fst p \<in> set (map cs addresses)) (identities s)) (map cs addresses)"
proof -
  obtain ids nl where loop:
    "syncIdentities_loop (map cs addresses) (obj_keys (identities s)) (identities s, []) = (ids, nl)"
    by (cases "syncIdentities_loop (map cs addresses) (obj_keys (identities s)) (identities s, [])")
  have "ids = filter (\<lambda>p. fst p \<notin> set (obj_keys (identities s)) \<or> fst p \<in> set (map cs addresses))
                (identities s)"
    using syncIdentities_loop_ids [of "map cs addresses" "obj_keys (identities s)" "identities s" "[]"]
    by (simp add: loop)
  also have "\<dots> = filter (\<lambda>p. fst p \<in> set (map cs addresses)) (identities s)"
    by (intro filter_cong) (auto simp: obj_keys_def)
  finally have ids: "ids = filter (\<lambda>p. fst p \<in> set (map cs addresses)) (identities s)" .
  show ?thesis
    unfolding syncIdentities_def Let_def loop ids [symmetric]
    by (simp add: addIdentities_def)
qed

lemma syncIdentities_lostIdentities:
  "obj_get (lostIdentities (snd (syncIdentities cs addresses s))) k =
     (if k \<notin> set (map cs addresses) \<and> obj_get (identities s) k \<noteq> None
      then obj_get (identities s) k else obj_get (lostIdentities s) k)"
proof -
  obtain ids nl where loop:
    "syncIdentities_loop (map cs addresses) (obj_keys (identities s)) (identities s, []) = (ids, nl)"
    by (cases "syncIdentities_loop (map cs addresses) (obj_keys (identities s)) (identities s, [])")
  have nl_get: "obj_get nl k' =
     (if k' \<notin> set (map cs addresses) \<and> obj_get (identities s) k' \<noteq> None
      then obj_get (identities s) k' else None)" for k'
  proof -
    have empty: "obj_get ([] :: ContactEntry js_object) k' = None"
      by (simp add: obj_get_def)
    have present: "k' \<in> set (obj_keys (identities s))" if "obj_get (identities s) k' \<noteq> None"
      using that by (simp add: obj_get_None_iff)
    from syncIdentities_loop_newlyLost
            [of "map cs addresses" "obj_keys (identities s)" "identities s" "[]" k']
    have "obj_get nl k' =
      (if k' \<in> set (obj_keys (identities s)) \<and> k' \<notin> set (map cs addresses) \<and>
          obj_get (identities s) k' \<noteq> None
       then obj_get (identities s) k' else None)"
      unfolding loop empty by simp
    with present show ?thesis by auto
  qed
  have "distinct (obj_keys (snd (syncIdentities_loop (map cs addresses)
                 (obj_keys (identities s)) (identities s, []))))"
    by (rule syncIdentities_loop_distinct) (simp add: obj_keys_def)
  then have nl_dist: "distinct (obj_keys nl)"
    by (simp add: loop)
  have lost: "lostIdentities (snd (syncIdentities cs addresses s)) =
                (if length (obj_keys nl) > 0 then copy_lost nl (lostIdentities s)
                 else lostIdentities s)"
    unfolding syncIdentities_def Let_def loop by (simp add: addIdentities_def)
  show ?thesis
  proof (cases "nl = []")
    case True
    then have "obj_get nl k = None" by (simp add: obj_get_def)
    with nl_get [of k] have "\<not> (k \<notin> set (map cs addresses) \<and> obj_get (identities s) k \<noteq> None)"
      by (auto split: if_splits)
    with True show ?thesis unfolding lost by (auto simp: obj_keys_def)
  next
    case False
    then have "lostIdentities (snd (syncIdentities cs addresses s)) = copy_lost nl (lostIdentities s)"
      unfolding lost by (simp add: obj_keys_def)
    then show ?thesis
      using copy_lost_get [OF nl_dist, of "lostIdentities s" k] nl_get [of k]
      by (auto split: option.splits)
  qed
qed

lemma syncIdentities_selectedAddress:
  "selectedAddress (snd (syncIdentities cs addresses s)) =
     (if selectedAddress s \<notin> Some ` set (map cs addresses) then first_elem (map cs addresses)
      else selectedAddress s) \<and>
   fst (syncIdentities cs addresses s) = selectedAddress (snd (syncIdentities cs addresses s)) \<and>
   featureFlags (snd (syncIdentities cs addresses s)) = featureFlags s \<and>
   tokens (snd (syncIdentities cs addresses s)) = tokens s"
proof -
  obtain ids nl where loop:
    "syncIdentities_loop (map cs addresses) (obj_keys (identities s)) (identities s, []) = (ids, nl)"
    by (cases "syncIdentities_loop (map cs addresses) (obj_keys (identities s)) (identities s, [])")
  show ?thesis
    unfolding syncIdentities_def Let_def loop by (simp add: addIdentities_def)
qed

lemma syncIdentities_shape:
  assumes idem: "\<forall>a. cs (cs a) = cs a"
  shows "\<exists>new. identities (snd (syncIdentities cs addresses s)) =
                 filter (\<lambda>p. fst p \<in> set (map cs addresses)) (identities s) @ new \<and>
          set (obj_keys new) =
            set (map cs addresses) -
            set (obj_keys (filter (\<lambda>p. fst p \<in> set (map cs addresses)) (identities s))) \<and>
          distinct (obj_keys new) \<and>
          (\<forall>j<length new. new ! j =
             (fst (new ! j),
              \<lparr>address = Some (fst (new ! j)),
               name = Some (''Account '' @ string_of_nat
                 (length (filter (\<lambda>p. fst p \<in> set (map cs addresses)) (identities s)) + j + 1))\<rparr>))"
proof -
  have "cs ` set (map cs addresses) = set (map cs addresses)"
    using idem by (auto simp: image_iff)
  with addIdentities_fold
         [of cs "filter (\<lambda>p. fst p \<in> set (map cs addresses)) (identities s)" "map cs addresses"]
  show ?thesis
    unfolding syncIdentities_identities by simp
qed

lemma syncIdentities_keys:
  assumes idem: "\<forall>a. cs (cs a) = cs a"
  shows "set (obj_keys (identities (snd (syncIdentities cs addresses s)))) = set (map cs addresses)"
proof -
  from syncIdentities_shape [OF idem, of addresses s] obtain new where new:
    "identities (snd (syncIdentities cs addresses s)) =
       filter (\<lambda>p. fst p \<in> set (map cs addresses)) (identities s) @ new"
    "set (obj_keys new) =
       set (map cs addresses) -
       set (obj_keys (filter (\<lambda>p. fst p \<in> set (map cs addresses)) (identities s)))"
    by blast
  have "set (obj_keys (identities (snd (syncIdentities cs addresses s)))) =
          set (obj_keys (filter (\<lambda>p. fst p \<in> set (map cs addresses)) (identities s))) \<union>
          set (obj_keys new)"
    unfolding new(1) by (simp add: obj_keys_def)
  then show ?thesis
    unfolding new(2) obj_keys_filter_keys by blast
qed




text \<open>
  Claim C2. When the selected address was a key of \<^verbatim>\<open>identities\<close> and is no longer
  one after \<^verbatim>\<open>removeIdentity\<close>, the selected address becomes the first remaining key,
  or \<^verbatim>\<open>undefined\<close> when no identity remains. For a checksum function that leaves
  checksummed addresses as they are, the same holds of \<^verbatim>\<open>syncIdentities\<close>, where the
  new selected address is the first element of the checksummed list; after
  \<^verbatim>\<open>syncIdentities\<close> the selected address is in every case a key of \<^verbatim>\<open>identities\<close>, or
  \<^verbatim>\<open>undefined\<close> with no identity left.
\<close>

theorem selectedAddress_not_dangling:
  "(\<forall>x. selectedAddress s = Some x \<and> x \<in> set (obj_keys (identities s)) \<and>
        x \<notin> set (obj_keys (identities (removeIdentity cs a s))) \<longrightarrow>
        selectedAddress (removeIdentity cs a s) =
          first_elem (obj_keys (identities (removeIdentity cs a s))) \<and>
        ((\<exists>y. selectedAddress (removeIdentity cs a s) = Some y \<and>
              y \<in> set (obj_keys (identities (removeIdentity cs a s)))) \<or>
         selectedAddress (removeIdentity cs a s) = None \<and>
         identities (removeIdentity cs a s) = [])) \<and>
   ((\<forall>a. cs (cs a) = cs a) \<longrightarrow>
    (\<forall>x. selectedAddress s = Some x \<and> x \<in> set (obj_keys (identities s)) \<and>
        x \<notin> set (obj_keys (identities (snd (syncIdentities cs addresses s)))) \<longrightarrow>
        selectedAddress (snd (syncIdentities cs addresses s)) = first_elem (map cs addresses)) \<and>
    ((\<exists>y. selectedAddress (snd (syncIdentities cs addresses s)) = Some y \<and>
          y \<in> set (obj_keys (identities (snd (syncIdentities cs addresses s))))) \<or>
     selectedAddress (snd (syncIdentities cs addresses s)) = None \<and>
     identities (snd (syncIdentities cs addresses s)) = []))"
proof -
  have first_key: "(\<exists>y. first_elem ks = Some y \<and> y \<in> set ks) \<or> first_elem ks = None \<and> ks = []"
    for ks :: "string list"
    by (cases ks) (simp_all add: first_elem_def)
  have remove: "selectedAddress (removeIdentity cs a s) =
          first_elem (obj_keys (identities (removeIdentity cs a s))) \<and>
        ((\<exists>y. selectedAddress (removeIdentity cs a s) = Some y \<and>
              y \<in> set (obj_keys (identities (removeIdentity cs a s)))) \<or>
         selectedAddress (removeIdentity cs a s) = None \<and>
         identities (removeIdentity cs a s) = [])"
    if x: "selectedAddress s = Some x \<and> x \<in> set (obj_keys (identities s)) \<and>
        x \<notin> set (obj_keys (identities (removeIdentity cs a s)))" for x
  proof (cases "obj_get (identities s) (cs a) = None")
    case True
    then have "removeIdentity cs a s = s" by (simp add: removeIdentity_def)
    with x show ?thesis by simp
  next
    case False
    then have ids: "identities (removeIdentity cs a s) = obj_delete (cs a) (identities s)"
      by (auto simp: removeIdentity_def Let_def)
    from x have "x = cs a"
      unfolding ids obj_keys_delete by auto
    with x False have sel: "selectedAddress (removeIdentity cs a s) =
        first_elem (obj_keys (obj_delete (cs a) (identities s)))"
      by (auto simp: removeIdentity_def Let_def)
    from first_key [of "obj_keys (obj_delete (cs a) (identities s))"] show ?thesis
      unfolding sel ids by (auto simp: obj_keys_def)
  qed
  have sync: "(\<forall>x. selectedAddress s = Some x \<and> x \<in> set (obj_keys (identities s)) \<and>
        x \<notin> set (obj_keys (identities (snd (syncIdentities cs addresses s)))) \<longrightarrow>
        selectedAddress (snd (syncIdentities cs addresses s)) = first_elem (map cs addresses)) \<and>
    ((\<exists>y. selectedAddress (snd (syncIdentities cs addresses s)) = Some y \<and>
          y \<in> set (obj_keys (identities (snd (syncIdentities cs addresses s))))) \<or>
     selectedAddress (snd (syncIdentities cs addresses s)) = None \<and>
     identities (snd (syncIdentities cs addresses s)) = [])"
    if idem: "\<forall>a. cs (cs a) = cs a"
  proof -
    note keys = syncIdentities_keys [OF idem, of addresses s]
    have sel: "selectedAddress (snd (syncIdentities cs addresses s)) =
      (if selectedAddress s \<notin> Some ` set (map cs addresses) then first_elem (map cs addresses)
       else selectedAddress s)"
      using syncIdentities_selectedAddress [of cs addresses s] by blast
    have reassigned: "selectedAddress (snd (syncIdentities cs addresses s)) =
        first_elem (map cs addresses)"
      if "selectedAddress s = Some x \<and> x \<in> set (obj_keys (identities s)) \<and>
        x \<notin> set (obj_keys (identities (snd (syncIdentities cs addresses s))))" for x
      using that unfolding keys sel by auto
    have valid: "(\<exists>y. selectedAddress (snd (syncIdentities cs addresses s)) = Some y \<and>
          y \<in> set (obj_keys (identities (snd (syncIdentities cs addresses s))))) \<or>
     selectedAddress (snd (syncIdentities cs addresses s)) = None \<and>
     identities (snd (syncIdentities cs addresses s)) = []"
    proof (cases "selectedAddress s \<in> Some ` set (map cs addresses)")
      case True
      then show ?thesis unfolding keys sel by auto
    next
      case False
      have "identities (snd (syncIdentities cs addresses s)) = []" if "map cs addresses = []"
        using keys that by (simp add: obj_keys_def)
      with False first_key [of "map cs addresses"] show ?thesis
        unfolding keys sel by auto
    qed
    from reassigned valid show ?thesis by blast
  qed
  from remove sync show ?thesis by blast
qed


theorem selectedAddress_not_dangling_witness:
  "selectedAddress (removeIdentity (\<lambda>a. a) ''0x1'' example_state) = Some ''0x2'' \<and>
   obj_keys (identities (removeIdentity (\<lambda>a. a) ''0x1'' example_state)) = [''0x2''] \<and>
   selectedAddress (removeIdentity (\<lambda>a. a) ''0x2''
      (removeIdentity (\<lambda>a. a) ''0x1'' example_state)) = None \<and>
   identities (removeIdentity (\<lambda>a. a) ''0x2''
      (removeIdentity (\<lambda>a. a) ''0x1'' example_state)) = [] \<and>
   selectedAddress (snd (syncIdentities (\<lambda>a. a) [''0x2''] example_state)) = Some ''0x2''"
proof -
  let ?cs = "\<lambda>a::string. a"
  let ?r1 = "removeIdentity ?cs ''0x1'' example_state"
  let ?r2 = "removeIdentity ?cs ''0x2'' ?r1"
  have k1: "obj_keys (identities ?r1) = [''0x2'']"
    by (simp add: removeIdentity_def example_state_def obj_get_def obj_delete_def obj_keys_def
          Let_def)
  have h1: "selectedAddress example_state = Some ''0x1'' \<and>
            ''0x1'' \<in> set (obj_keys (identities example_state)) \<and>
            ''0x1'' \<notin> set (obj_keys (identities ?r1))"
    unfolding k1 by (simp add: example_state_def obj_keys_def)
  from selectedAddress_not_dangling [of example_state ?cs "''0x1''" "[]"] h1
  have "selectedAddress ?r1 = first_elem (obj_keys (identities ?r1))" by blast
  then have s1: "selectedAddress ?r1 = Some ''0x2''"
    unfolding k1 by (simp add: first_elem_def)
  have i1: "identities ?r1 = [(''0x2'', \<lparr>address = Some ''0x2'', name = Some ''Account 2''\<rparr>)]"
    by (simp add: removeIdentity_def example_state_def obj_get_def obj_delete_def Let_def)
  have k2: "identities ?r2 = []"
    by (simp add: removeIdentity_def [of ?cs "''0x2''"] i1 obj_get_def obj_delete_def Let_def)
  have h2: "selectedAddress ?r1 = Some ''0x2'' \<and>
            ''0x2'' \<in> set (obj_keys (identities ?r1)) \<and>
            ''0x2'' \<notin> set (obj_keys (identities ?r2))"
    unfolding k1 k2 using s1 by (simp add: obj_keys_def)
  from selectedAddress_not_dangling [of ?r1 ?cs "''0x2''" "[]"] h2
  have "selectedAddress ?r2 = first_elem (obj_keys (identities ?r2))" by blast
  then have s2: "selectedAddress ?r2 = None"
    unfolding k2 by (simp add: first_elem_def obj_keys_def)
  have idem: "\<forall>a. ?cs (?cs a) = ?cs a" by simp
  have h3: "selectedAddress example_state = Some ''0x1'' \<and>
            ''0x1'' \<in> set (obj_keys (identities example_state)) \<and>
            ''0x1'' \<notin> set (obj_keys (identities (snd (syncIdentities ?cs [''0x2''] example_state))))"
    unfolding syncIdentities_keys [OF idem] by (simp add: example_state_def obj_keys_def)
  from selectedAddress_not_dangling [of example_state ?cs "''0x1''" "[''0x2'']"] idem h3
  have "selectedAddress (snd (syncIdentities ?cs [''0x2''] example_state)) =
          first_elem (map ?cs [''0x2''])" by blast
  then have s3: "selectedAddress (snd (syncIdentities ?cs [''0x2''] example_state)) = Some ''0x2''"
    by (simp add: first_elem_def)
  from s1 k1 s2 k2 s3 show ?thesis by blast
qed

subsection \<open>\<^verbatim>\<open>updateIdentities\<close>\<close>

lemma updateIdentities_each_keys:
  "obj_keys (updateIdentities_each old ids (i, a)) =
     (if a \<in> set (obj_keys ids) then obj_keys ids else obj_keys ids @ [a])"
  by (simp add: updateIdentities_each_def obj_keys_set)

lemma updateIdentities_fold_keys:
  "set (obj_keys (foldl (updateIdentities_each old) acc (enumerate n xs))) = set (obj_keys acc) \<union> set xs"
  by (induction xs arbitrary: acc n) (auto simp: updateIdentities_each_keys)

lemma updateIdentities_keys_set:
  "set (obj_keys (identities (updateIdentities cs addresses s))) = set (map cs addresses)"
  by (simp add: updateIdentities_def updateIdentities_fold_keys) (simp add: obj_keys_def)

lemma updateIdentities_fold_snoc:
  "foldl (updateIdentities_each old) acc (enumerate n (xs @ [x])) =
     updateIdentities_each old (foldl (updateIdentities_each old) acc (enumerate n xs))
       (n + length xs, x)"
  by (simp add: enumerate_append_eq)

lemma updateIdentities_each_get:
  "obj_get (updateIdentities_each old ids (i, a)) k =
     (if k = a
      then Some (spread \<lparr>address = Some a,
                         name = Some (''Account '' @ string_of_nat (i + 1))\<rparr>
                   (case obj_get old a of Some e \<Rightarrow> e | None \<Rightarrow> empty_entry))
      else obj_get ids k)"
  by (simp add: updateIdentities_each_def obj_get_set)

lemma updateIdentities_fold_get:
  "i < length xs \<Longrightarrow> (\<forall>j. i < j \<and> j < length xs \<longrightarrow> xs ! j \<noteq> xs ! i) \<Longrightarrow>
     obj_get (foldl (updateIdentities_each old) acc (enumerate n xs)) (xs ! i) =
       Some (spread \<lparr>address = Some (xs ! i),
                     name = Some (''Account '' @ string_of_nat (n + i + 1))\<rparr>
               (case obj_get old (xs ! i) of Some e \<Rightarrow> e | None \<Rightarrow> empty_entry))"
proof (induction xs arbitrary: i rule: rev_induct)
  case Nil
  then show ?case by simp
next
  case (snoc x xs)
  show ?case
  proof (cases "i = length xs")
    case True
    then show ?thesis
      unfolding updateIdentities_fold_snoc
      by (simp add: updateIdentities_each_get)
  next
    case False
    with snoc.prems(1) have i: "i < length xs" by simp
    have later: "\<forall>j. i < j \<and> j < length xs \<longrightarrow> xs ! j \<noteq> xs ! i"
    proof (intro allI impI)
      fix j assume j: "i < j \<and> j < length xs"
      with snoc.prems(2) [rule_format, of j] have "(xs @ [x]) ! j \<noteq> (xs @ [x]) ! i" by simp
      with i j show "xs ! j \<noteq> xs ! i" by (simp add: nth_append)
    qed
    from snoc.prems(2) [rule_format, of "length xs"] i
    have "(xs @ [x]) ! length xs \<noteq> (xs @ [x]) ! i"
      by simp
    with i have neq: "x \<noteq> xs ! i" by (simp add: nth_append)
    from i have nth: "(xs @ [x]) ! i = xs ! i" by (simp add: nth_append)
    from snoc.IH [OF i later] neq show ?thesis
      unfolding updateIdentities_fold_snoc nth
      by (simp add: updateIdentities_each_get)
  qed
qed

lemma updateIdentities_fold_distinct:
  "distinct (obj_keys acc) \<Longrightarrow>
     distinct (obj_keys (foldl (updateIdentities_each old) acc (enumerate n xs)))"
  by (induction xs arbitrary: acc n) (auto simp: updateIdentities_each_keys)

lemma updateIdentities_fold_keys_distinct:
  "distinct xs \<Longrightarrow> set xs \<inter> set (obj_keys acc) = {} \<Longrightarrow>
     obj_keys (foldl (updateIdentities_each old) acc (enumerate n xs)) = obj_keys acc @ xs"
proof (induction xs arbitrary: acc n)
  case Nil
  show ?case by simp
next
  case (Cons x xs)
  from Cons.prems have x: "x \<notin> set (obj_keys acc)" by auto
  then have keys: "obj_keys (updateIdentities_each old acc (n, x)) = obj_keys acc @ [x]"
    by (simp add: updateIdentities_each_keys)
  from Cons.prems have "distinct xs"
    and "set xs \<inter> set (obj_keys (updateIdentities_each old acc (n, x))) = {}"
    unfolding keys by auto
  from Cons.IH [OF this, of "Suc n"] show ?case
    unfolding keys by simp
qed

lemma updateIdentities_fold_key_order:
  "obj_keys (foldl (updateIdentities_each old) [] (enumerate n xs)) = rev (remdups (rev xs))"
proof (induction xs rule: rev_induct)
  case Nil
  show ?case by (simp add: obj_keys_def)
next
  case (snoc x xs)
  have "set (obj_keys (foldl (updateIdentities_each old) [] (enumerate n xs))) = set xs"
    unfolding snoc.IH by simp
  then show ?case
    unfolding updateIdentities_fold_snoc updateIdentities_each_keys snoc.IH
    by simp
qed

text \<open>
  Claim C4, as amended. \<^verbatim>\<open>updateIdentities\<close> replaces \<^verbatim>\<open>identities\<close> by a map whose
  keys are the checksummed inputs, each once, in the order in which they first occur in
  the input. The entry of an address is the default
  \<^verbatim>\<open>{ address, name: "Account i+1" }\<close> of the (0-based) position \<open>i\<close> of its last
  occurrence in the input, with the fields of the address's old record laid over it: an
  old name is kept. An identity whose key is not among the checksummed inputs is gone, and
  \<^verbatim>\<open>lostIdentities\<close> is unchanged, so \<^verbatim>\<open>updateIdentities\<close> is not \<^verbatim>\<open>syncIdentities\<close>.
\<close>

theorem updateIdentities_replaces:
  "set (obj_keys (identities (updateIdentities cs addresses s))) = set (map cs addresses) \<and>
   distinct (obj_keys (identities (updateIdentities cs addresses s))) \<and>
   obj_keys (identities (updateIdentities cs addresses s)) =
     rev (remdups (rev (map cs addresses))) \<and>
   (distinct (map cs addresses) \<longrightarrow>
      obj_keys (identities (updateIdentities cs addresses s)) = map cs addresses) \<and>
   (\<forall>i<length addresses.
      (\<forall>j. i < j \<and> j < length addresses \<longrightarrow> cs (addresses ! j) \<noteq> cs (addresses ! i)) \<longrightarrow>
      obj_get (identities (updateIdentities cs addresses s)) (cs (addresses ! i)) =
        Some (spread \<lparr>address = Some (cs (addresses ! i)),
                      name = Some (''Account '' @ string_of_nat (i + 1))\<rparr>
                (case obj_get (identities s) (cs (addresses ! i)) of
                   Some e \<Rightarrow> e | None \<Rightarrow> empty_entry))) \<and>
   (\<forall>e n. obj_get (identities s) k = Some e \<and> name e = Some n \<and> k \<in> set (map cs addresses) \<longrightarrow>
      (\<exists>e'. obj_get (identities (updateIdentities cs addresses s)) k = Some e' \<and>
            name e' = Some n)) \<and>
   (k \<notin> set (map cs addresses) \<longrightarrow>
      obj_get (identities (updateIdentities cs addresses s)) k = None) \<and>
   lostIdentities (updateIdentities cs addresses s) = lostIdentities s \<and>
   (\<exists>cs' addresses' s'.
      updateIdentities cs' addresses' s' \<noteq> snd (syncIdentities cs' addresses' s'))"
proof -
  let ?A = "map cs addresses"
  let ?ids = "identities (updateIdentities cs addresses s)"
  have ids: "?ids = foldl (updateIdentities_each (identities s)) [] (enumerate 0 ?A)"
    by (simp add: updateIdentities_def)
  have keys: "set (obj_keys ?ids) = set ?A"
    by (rule updateIdentities_keys_set)
  have dist: "distinct (obj_keys ?ids)"
    unfolding ids by (rule updateIdentities_fold_distinct) (simp add: obj_keys_def)
  have first_order: "obj_keys ?ids = rev (remdups (rev ?A))"
    unfolding ids by (rule updateIdentities_fold_key_order)
  have order: "obj_keys ?ids = ?A" if "distinct ?A"
    using updateIdentities_fold_keys_distinct [OF that, of "[]" "identities s" 0]
    unfolding ids by (simp add: obj_keys_def)
  have entry: "obj_get ?ids (cs (addresses ! i)) =
        Some (spread \<lparr>address = Some (cs (addresses ! i)),
                      name = Some (''Account '' @ string_of_nat (i + 1))\<rparr>
                (case obj_get (identities s) (cs (addresses ! i)) of
                   Some e \<Rightarrow> e | None \<Rightarrow> empty_entry))"
    if i: "i < length addresses"
      and last: "\<forall>j. i < j \<and> j < length addresses \<longrightarrow> cs (addresses ! j) \<noteq> cs (addresses ! i)"
    for i
  proof -
    from i have "i < length ?A" by simp
    moreover from i last have "\<forall>j. i < j \<and> j < length ?A \<longrightarrow> ?A ! j \<noteq> ?A ! i" by simp
    ultimately show ?thesis
      using updateIdentities_fold_get [of i ?A "identities s" "[]" 0] i
      unfolding ids by simp
  qed
  have named: "\<exists>e'. obj_get ?ids k = Some e' \<and> name e' = Some n"
    if k: "obj_get (identities s) k = Some e \<and> name e = Some n \<and> k \<in> set ?A" for e n
  proof -
    from k have "\<exists>i<length ?A. ?A ! i = k \<and> (\<forall>j. i < j \<and> j < length ?A \<longrightarrow> ?A ! j \<noteq> k)"
    proof (induction addresses rule: rev_induct)
      case Nil
      then show ?case by simp
    next
      case (snoc x xs)
      show ?case
      proof (cases "cs x = k")
        case True
        then show ?thesis
          by (intro exI [of _ "length xs"]) (auto simp: nth_append)
      next
        case False
        with snoc.prems have "obj_get (identities s) k = Some e \<and> name e = Some n \<and>
            k \<in> set (map cs xs)" by auto
        from snoc.IH [OF this] obtain i where i: "i < length (map cs xs)" "map cs xs ! i = k"
          "\<forall>j. i < j \<and> j < length (map cs xs) \<longrightarrow> map cs xs ! j \<noteq> k" by blast
        have "\<forall>j. i < j \<and> j < length (map cs (xs @ [x])) \<longrightarrow> map cs (xs @ [x]) ! j \<noteq> k"
        proof (intro allI impI)
          fix j assume j: "i < j \<and> j < length (map cs (xs @ [x]))"
          show "map cs (xs @ [x]) ! j \<noteq> k"
          proof (cases "j < length xs")
            case True
            with i(3) j have "map cs xs ! j \<noteq> k" by simp
            with True show ?thesis by (simp add: nth_append)
          next
            case False
            with j have "j = length xs" by simp
            with \<open>cs x \<noteq> k\<close> show ?thesis by (simp add: nth_append)
          qed
        qed
        moreover from i(1,2) have "map cs (xs @ [x]) ! i = k" by (simp add: nth_append)
        moreover from i(1) have "i < length (map cs (xs @ [x]))" by simp
        ultimately show ?thesis by blast
      qed
    qed
    then obtain i where i: "i < length addresses" "cs (addresses ! i) = k"
      "\<forall>j. i < j \<and> j < length addresses \<longrightarrow> cs (addresses ! j) \<noteq> cs (addresses ! i)"
      by auto
    from entry [OF i(1) i(3)] k show ?thesis
      unfolding i(2) by (simp add: spread_def)
  qed
  have dropped: "obj_get ?ids k = None" if "k \<notin> set ?A"
    using that keys by (simp add: obj_get_None_iff)
  have lost: "lostIdentities (updateIdentities cs addresses s) = lostIdentities s"
    by (simp add: updateIdentities_def)
  have "lostIdentities (updateIdentities (\<lambda>a. a) [''0x2''] example_state) = []"
    by (simp add: updateIdentities_def example_state_def)
  moreover have "obj_get (lostIdentities (snd (syncIdentities (\<lambda>a. a) [''0x2''] example_state)))
          ''0x1'' = Some \<lparr>address = Some ''0x1'', name = Some ''Main''\<rparr>"
    by (simp add: syncIdentities_lostIdentities) (simp add: example_state_def obj_get_def)
  ultimately have "updateIdentities (\<lambda>a. a) [''0x2''] example_state \<noteq>
      snd (syncIdentities (\<lambda>a. a) [''0x2''] example_state)"
    by (auto simp: obj_get_def)
  then have differ: "\<exists>cs' addresses' s'.
      updateIdentities cs' addresses' s' \<noteq> snd (syncIdentities cs' addresses' s')"
    by blast
  from keys dist first_order order entry named dropped lost differ show ?thesis by blast
qed

text \<open>
  The claim as first stated fails on an input that repeats an address: for two spellings
  of one address the map has one entry, and its name is \<^verbatim>\<open>Account 2\<close>; no entry is named
  \<^verbatim>\<open>Account 1\<close>.
\<close>

theorem updateIdentities_numbering_counterexample:
  "identities (updateIdentities example_checksum [''0xa'', ''0xA''] defaultState) =
     [(''0xA'', \<lparr>address = Some ''0xA'', name = Some ''Account 2''\<rparr>)]"
  by (simp add: updateIdentities_def updateIdentities_each_def defaultState_def obj_get_def
        example_checksum_def spread_def empty_entry_def string_of_nat.simps digit_char_def)


theorem updateIdentities_replaces_witness:
  "obj_keys (identities (updateIdentities (\<lambda>a. a) [''0x3'', ''0x1''] example_state)) =
     [''0x3'', ''0x1''] \<and>
   obj_get (identities (updateIdentities (\<lambda>a. a) [''0x3'', ''0x1''] example_state)) ''0x3'' =
     Some \<lparr>address = Some ''0x3'', name = Some ''Account 1''\<rparr> \<and>
   obj_get (identities (updateIdentities (\<lambda>a. a) [''0x3'', ''0x1''] example_state)) ''0x1'' =
     Some \<lparr>address = Some ''0x1'', name = Some ''Main''\<rparr> \<and>
   obj_get (identities (updateIdentities (\<lambda>a. a) [''0x3'', ''0x1''] example_state)) ''0x2'' = None \<and>
   lostIdentities (updateIdentities (\<lambda>a. a) [''0x3'', ''0x1''] example_state) = [] \<and>
   obj_keys (identities (updateIdentities example_checksum [''0xb'', ''0xa'', ''0xB'']
                           example_state)) = [''0xB'', ''0xA'']"
proof -
  let ?cs = "\<lambda>a::string. a"
  let ?as = "[''0x3'', ''0x1'']"
  let ?u = "updateIdentities ?cs ?as example_state"
  note inst = updateIdentities_replaces [of ?cs ?as example_state "''0x2''"]
  have d: "distinct (map ?cs ?as)" by simp
  have last0: "0 < length ?as \<and>
     (\<forall>j. 0 < j \<and> j < length ?as \<longrightarrow> ?cs (?as ! j) \<noteq> ?cs (?as ! 0))"
    by (auto simp: less_Suc_eq)
  have last1: "1 < length ?as \<and>
     (\<forall>j. 1 < j \<and> j < length ?as \<longrightarrow> ?cs (?as ! j) \<noteq> ?cs (?as ! 1))"
    by (auto simp: less_Suc_eq)
  have out: "''0x2'' \<notin> set (map ?cs ?as)" by simp
  have old3: "obj_get (identities example_state) ''0x3'' = None"
    and old1: "obj_get (identities example_state) ''0x1'' =
                 Some \<lparr>address = Some ''0x1'', name = Some ''Main''\<rparr>"
    by (simp_all add: example_state_def obj_get_def)
  from inst d have keys: "obj_keys (identities ?u) = [''0x3'', ''0x1'']" by simp
  from inst last0 have "obj_get (identities ?u) (?cs (?as ! 0)) =
        Some (spread \<lparr>address = Some (?cs (?as ! 0)),
                      name = Some (''Account '' @ string_of_nat (0 + 1))\<rparr>
                (case obj_get (identities example_state) (?cs (?as ! 0)) of
                   Some e \<Rightarrow> e | None \<Rightarrow> empty_entry))"
    by blast
  then have e3: "obj_get (identities ?u) ''0x3'' =
      Some \<lparr>address = Some ''0x3'', name = Some ''Account 1''\<rparr>"
    by (simp add: old3 spread_def empty_entry_def string_of_nat.simps digit_char_def)
  from inst last1 have "obj_get (identities ?u) (?cs (?as ! 1)) =
        Some (spread \<lparr>address = Some (?cs (?as ! 1)),
                      name = Some (''Account '' @ string_of_nat (1 + 1))\<rparr>
                (case obj_get (identities example_state) (?cs (?as ! 1)) of
                   Some e \<Rightarrow> e | None \<Rightarrow> empty_entry))"
    by blast
  then have e1: "obj_get (identities ?u) ''0x1'' =
      Some \<lparr>address = Some ''0x1'', name = Some ''Main''\<rparr>"
    by (simp add: old1 spread_def)
  from inst out have e2: "obj_get (identities ?u) ''0x2'' = None" by blast
  from inst have "lostIdentities ?u = lostIdentities example_state" by blast
  then have l: "lostIdentities ?u = []" by (simp add: example_state_def)
  from updateIdentities_replaces
         [of example_checksum "[''0xb'', ''0xa'', ''0xB'']" example_state "''0x2''"]
  have "obj_keys (identities (updateIdentities example_checksum [''0xb'', ''0xa'', ''0xB'']
                                example_state)) =
          rev (remdups (rev (map example_checksum [''0xb'', ''0xa'', ''0xB''])))"
    by (elim conjE)
  then have repeated: "obj_keys (identities (updateIdentities example_checksum
                         [''0xb'', ''0xa'', ''0xB''] example_state)) = [''0xB'', ''0xA'']"
    by (simp add: example_checksum_def)
  from keys e3 e1 e2 l repeated show ?thesis by blast
qed

text \<open>
  Claim C10. \<^verbatim>\<open>updateIdentities\<close> changes the field \<^verbatim>\<open>identities\<close> and nothing else:
  \<^verbatim>\<open>featureFlags\<close>, \<^verbatim>\<open>lostIdentities\<close>, \<^verbatim>\<open>selectedAddress\<close> and \<^verbatim>\<open>tokens\<close> are as
  before. In particular a selected address that is not in the (checksummed) input stays
  selected, although it is not a key of the new \<^verbatim>\<open>identities\<close>.
\<close>

theorem updateIdentities_frame:
  "featureFlags (updateIdentities cs addresses s) = featureFlags s \<and>
   lostIdentities (updateIdentities cs addresses s) = lostIdentities s \<and>
   selectedAddress (updateIdentities cs addresses s) = selectedAddress s \<and>
   tokens (updateIdentities cs addresses s) = tokens s \<and>
   (\<forall>a. selectedAddress s = Some a \<and> a \<notin> set (map cs addresses) \<longrightarrow>
        selectedAddress (updateIdentities cs addresses s) = Some a \<and>
        a \<notin> set (obj_keys (identities (updateIdentities cs addresses s))))"
proof -
  have frame: "featureFlags (updateIdentities cs addresses s) = featureFlags s"
    "lostIdentities (updateIdentities cs addresses s) = lostIdentities s"
    "selectedAddress (updateIdentities cs addresses s) = selectedAddress s"
    "tokens (updateIdentities cs addresses s) = tokens s"
    by (simp_all add: updateIdentities_def)
  show ?thesis
    unfolding updateIdentities_keys_set using frame by simp
qed

theorem updateIdentities_frame_witness:
  "selectedAddress
     (updateIdentities (\<lambda>a. a) [''0x2'']
        (snd (syncIdentities (\<lambda>a. a) [''0x1'', ''0x2''] defaultState))) = Some ''0x1'' \<and>
   ''0x1'' \<notin> set (obj_keys (identities
     (updateIdentities (\<lambda>a. a) [''0x2'']
        (snd (syncIdentities (\<lambda>a. a) [''0x1'', ''0x2''] defaultState)))))"
proof -
  let ?s = "snd (syncIdentities (\<lambda>a. a) [''0x1'', ''0x2''] defaultState)"
  have sel: "selectedAddress ?s = Some ''0x1''"
    by (simp add: syncIdentities_def defaultState_def obj_keys_def addIdentities_def first_elem_def)
  have "selectedAddress ?s = Some ''0x1'' \<and> ''0x1'' \<notin> set (map (\<lambda>a. a) [''0x2''])"
    using sel by simp
  with updateIdentities_frame [of "\<lambda>a. a" "[''0x2'']" ?s] show ?thesis by blast
qed

subsection \<open>The keys of \<^verbatim>\<open>identities\<close> and the address fields\<close>

text \<open>
  Claim C1. On a controller without identities, \<^verbatim>\<open>setAccountLabel\<close> stores under the
  checksummed address a record that has a name and no \<^verbatim>\<open>address\<close> field: the key is then
  not the checksummed form of the record's address field.
\<close>

theorem setAccountLabel_missing_address:
  "identities (setAccountLabel cs address0 label defaultState) =
     [(cs address0, \<lparr>address = None, name = Some label\<rparr>)]"
  by (simp add: setAccountLabel_def defaultState_def obj_get_def empty_entry_def)

text \<open>
  The other paths keep the invariant, for a checksum function that leaves checksummed
  addresses as they are: \<^verbatim>\<open>addIdentities\<close>, \<^verbatim>\<open>removeIdentity\<close>, \<^verbatim>\<open>syncIdentities\<close>,
  \<^verbatim>\<open>updateIdentities\<close>, and \<^verbatim>\<open>setAccountLabel\<close> on an address that has an identity.
\<close>

lemma identities_keyed_default: "identities_keyed cs defaultState"
  by (simp add: identities_keyed_def defaultState_def)

lemma setAccountLabel_not_keyed:
  "\<not> identities_keyed cs (setAccountLabel cs address0 label defaultState)"
  by (simp add: identities_keyed_def setAccountLabel_def defaultState_def obj_get_def
        empty_entry_def)

lemma obj_set_subset: "set (obj_set k v obj) \<subseteq> insert (k, v) (set obj)"
  by (induction obj) auto

lemma obj_get_in_set: "obj_get obj k = Some v \<Longrightarrow> (k, v) \<in> set obj"
  by (simp add: obj_get_def map_of_SomeD)

lemma identities_keyed_addIdentities:
  assumes idem: "\<forall>a. cs (cs a) = cs a" and inv: "identities_keyed cs s"
  shows "identities_keyed cs (addIdentities cs addresses s)"
proof -
  from addIdentities_fold [of cs "identities s" addresses] obtain new where new:
    "identities (addIdentities cs addresses s) = identities s @ new"
    "set (obj_keys new) = cs ` set addresses - set (obj_keys (identities s))"
    "\<forall>j<length new. new ! j =
       (fst (new ! j),
        \<lparr>address = Some (fst (new ! j)),
         name = Some (''Account '' @ string_of_nat (length (identities s) + j + 1))\<rparr>)"
    by (auto simp: addIdentities_def)
  have "\<exists>a. ContactEntry.address (snd p) = Some a \<and> fst p = cs a" if p: "p \<in> set new" for p
  proof -
    from p obtain j where j: "j < length new" "new ! j = p"
      by (auto simp: in_set_conv_nth)
    from p have "fst p \<in> set (obj_keys new)" by (simp add: obj_keys_def)
    with new(2) idem have "cs (fst p) = fst p" by auto
    moreover from new(3) j have "ContactEntry.address (snd p) = Some (fst p)"
      by (metis ContactEntry.select_convs(1) snd_conv)
    ultimately show ?thesis by metis
  qed
  with inv show ?thesis
    unfolding identities_keyed_def new(1) by auto
qed

lemma identities_keyed_removeIdentity:
  assumes inv: "identities_keyed cs s"
  shows "identities_keyed cs (removeIdentity cs a s)"
  using inv by (auto simp: identities_keyed_def removeIdentity_def Let_def obj_delete_def)

lemma identities_keyed_syncIdentities:
  assumes idem: "\<forall>a. cs (cs a) = cs a" and inv: "identities_keyed cs s"
  shows "identities_keyed cs (snd (syncIdentities cs addresses s))"
proof -
  let ?s1 = "s\<lparr>identities := filter (\<lambda>p. fst p \<in> set (map cs addresses)) (identities s)\<rparr>"
  from inv have "identities_keyed cs ?s1"
    by (auto simp: identities_keyed_def)
  from identities_keyed_addIdentities [OF idem this, of "map cs addresses"]
  show ?thesis
    unfolding identities_keyed_def syncIdentities_identities
    by (simp add: addIdentities_def)
qed

lemma updateIdentities_fold_mem:
  "p \<in> set (foldl (updateIdentities_each old) acc (enumerate n xs)) \<Longrightarrow>
     p \<in> set acc \<or>
     (\<exists>i. snd p = spread \<lparr>address = Some (fst p),
                            name = Some (''Account '' @ string_of_nat (i + 1))\<rparr>
                      (case obj_get old (fst p) of Some e \<Rightarrow> e | None \<Rightarrow> empty_entry) \<and>
          fst p \<in> set xs)"
proof (induction xs arbitrary: acc n)
  case Nil
  then show ?case by simp
next
  case (Cons x xs)
  from Cons.prems have "p \<in> set (foldl (updateIdentities_each old)
      (updateIdentities_each old acc (n, x)) (enumerate (Suc n) xs))" by simp
  from Cons.IH [OF this] show ?case
  proof
    assume "p \<in> set (updateIdentities_each old acc (n, x))"
    with obj_set_subset have "p \<in> insert (x, spread \<lparr>address = Some x,
                            name = Some (''Account '' @ string_of_nat (n + 1))\<rparr>
                      (case obj_get old x of Some e \<Rightarrow> e | None \<Rightarrow> empty_entry)) (set acc)"
      unfolding updateIdentities_each_def by fastforce
    then show ?thesis by auto
  next
    assume "\<exists>i. snd p = spread \<lparr>address = Some (fst p),
                            name = Some (''Account '' @ string_of_nat (i + 1))\<rparr>
                      (case obj_get old (fst p) of Some e \<Rightarrow> e | None \<Rightarrow> empty_entry) \<and>
          fst p \<in> set xs"
    then show ?thesis by auto
  qed
qed

lemma identities_keyed_updateIdentities:
  assumes idem: "\<forall>a. cs (cs a) = cs a" and inv: "identities_keyed cs s"
  shows "identities_keyed cs (updateIdentities cs addresses s)"
  unfolding identities_keyed_def
proof
  fix p assume "p \<in> set (identities (updateIdentities cs addresses s))"
  then have "p \<in> set (foldl (updateIdentities_each (identities s)) []
                        (enumerate 0 (map cs addresses)))"
    by (simp add: updateIdentities_def)
  from updateIdentities_fold_mem [OF this] obtain i where
    p: "snd p = spread \<lparr>address = Some (fst p),
                         name = Some (''Account '' @ string_of_nat (i + 1))\<rparr>
                  (case obj_get (identities s) (fst p) of Some e \<Rightarrow> e | None \<Rightarrow> empty_entry)"
    and k: "fst p \<in> set (map cs addresses)"
    by auto
  from k idem have fixed: "cs (fst p) = fst p" by auto
  show "\<exists>a. ContactEntry.address (snd p) = Some a \<and> fst p = cs a"
  proof (cases "obj_get (identities s) (fst p)")
    case None
    with p fixed show ?thesis by (simp add: spread_def empty_entry_def)
  next
    case (Some e)
    from obj_get_in_set [OF Some] inv obtain a where
      "ContactEntry.address e = Some a" "fst p = cs a"
      unfolding identities_keyed_def by fastforce
    with p Some show ?thesis by (simp add: spread_def)
  qed
qed

lemma identities_keyed_setAccountLabel_present:
  assumes inv: "identities_keyed cs s" and present: "obj_get (identities s) (cs a) \<noteq> None"
  shows "identities_keyed cs (setAccountLabel cs a label s)"
proof -
  from present obtain e where e: "obj_get (identities s) (cs a) = Some e" by auto
  from obj_get_in_set [OF e] inv obtain a' where
    a': "ContactEntry.address e = Some a'" "cs a = cs a'"
    unfolding identities_keyed_def by fastforce
  have ids: "identities (setAccountLabel cs a label s) =
               obj_set (cs a) (e\<lparr>name := Some label\<rparr>) (identities s)"
    using e by (simp add: setAccountLabel_def)
  show ?thesis
    unfolding identities_keyed_def ids
  proof
    fix p assume "p \<in> set (obj_set (cs a) (e\<lparr>name := Some label\<rparr>) (identities s))"
    with obj_set_subset have "p = (cs a, e\<lparr>name := Some label\<rparr>) \<or> p \<in> set (identities s)"
      by fastforce
    then show "\<exists>a. ContactEntry.address (snd p) = Some a \<and> fst p = cs a"
    proof
      assume "p = (cs a, e\<lparr>name := Some label\<rparr>)"
      with a' show ?thesis by auto
    next
      assume "p \<in> set (identities s)"
      with inv show ?thesis unfolding identities_keyed_def by blast
    qed
  qed
qed

section \<open>Properties of the ERC721 probes\<close>

text \<open>
  Claim C7. Both probes' \<^verbatim>\<open>contractSupportsInterface\<close> issue the one remote call
  \<^verbatim>\<open>supportsInterface(interfaceId)\<close>; each resolves to the boolean the call reports when
  the call reports no error, and rejects with the call's error when it reports one. Given
  the same outcome of the remote call, the probe that dispatches by address and the probe
  that is handed the bound methods return the same calls and the same result.
\<close>

theorem supportsInterface_variants:
  "(\<forall>b. call_supportsInterface (eth_contract_at web3 addr) t interfaceId = (None, b) \<longrightarrow>
        contractSupportsInterface web3 t addr interfaceId =
          ([SupportsInterfaceCall interfaceId], Inr b)) \<and>
   (\<forall>e b. call_supportsInterface (eth_contract_at web3 addr) t interfaceId = (Some e, b) \<longrightarrow>
        contractSupportsInterface web3 t addr interfaceId =
          ([SupportsInterfaceCall interfaceId], Inl e)) \<and>
   (\<forall>b. call_supportsInterface (methods contract) t interfaceId = (None, b) \<longrightarrow>
        contractSupportsInterface_m contract t interfaceId =
          ([SupportsInterfaceCall interfaceId], Inr b)) \<and>
   (\<forall>e b. call_supportsInterface (methods contract) t interfaceId = (Some e, b) \<longrightarrow>
        contractSupportsInterface_m contract t interfaceId =
          ([SupportsInterfaceCall interfaceId], Inl e)) \<and>
   (call_supportsInterface (eth_contract_at web3 addr) t interfaceId =
      call_supportsInterface (methods contract) t interfaceId \<longrightarrow>
        contractSupportsInterface web3 t addr interfaceId =
          contractSupportsInterface_m contract t interfaceId)"
  by (simp add: contractSupportsInterface_def contractSupportsInterface_m_def
        promise_of_callback_def)

text \<open>
  Claim C5. Whenever the metadata-interface check resolves to false, \<^verbatim>\<open>getTokenURI\<close>
  and \<^verbatim>\<open>getCollectibleTokenURI\<close> reject with the error
  \<^verbatim>\<open>Contract does not support ERC721 metadata interface.\<close> and the only remote call
  issued is the one of the check: the \<^verbatim>\<open>tokenURI\<close> call is never attempted.
\<close>

theorem tokenURI_requires_metadata:
  "(snd (contractSupportsMetadataInterface consts web3 t addr) = Inr False \<longrightarrow>
      getTokenURI consts web3 t addr tokenId =
        ([SupportsInterfaceCall (ERC721_METADATA_INTERFACE_ID consts)],
         Inl (Error ''Contract does not support ERC721 metadata interface.''))) \<and>
   (snd (contractSupportsMetadataInterface_m contract t) = Inr False \<longrightarrow>
      getCollectibleTokenURI contract t tokenId =
        ([SupportsInterfaceCall ERC721_METADATA_INTERFACE_ID_m],
         Inl (Error ''Contract does not support ERC721 metadata interface.'')))"
  by (simp add: getTokenURI_def getCollectibleTokenURI_def
        contractSupportsMetadataInterface_def contractSupportsMetadataInterface_m_def
        contractSupportsInterface_def contractSupportsInterface_m_def)


theorem supportsInterface_variants_witness:
  "contractSupportsInterface (example_web3 True False None) 0 ''0xC'' ''0x80ac58cd'' =
     ([SupportsInterfaceCall ''0x80ac58cd''], Inr True) \<and>
   contractSupportsInterface_m \<lparr>methods = example_contract True False None\<rparr> 0 ''0x5b5e139f'' =
     ([SupportsInterfaceCall ''0x5b5e139f''], Inr False) \<and>
   contractSupportsInterface (example_web3 True False None) 0 ''0xC'' ''0x5b5e139f'' =
     contractSupportsInterface_m \<lparr>methods = example_contract True False None\<rparr> 0 ''0x5b5e139f''"
proof -
  let ?w = "example_web3 True False None"
  let ?c = "\<lparr>methods = example_contract True False None\<rparr>"
  have a: "call_supportsInterface (eth_contract_at ?w ''0xC'') 0 ''0x80ac58cd'' = (None, True)"
    by (simp add: example_web3_def example_contract_def)
  have b: "call_supportsInterface (methods ?c) 0 ''0x5b5e139f'' = (None, False)"
    by (simp add: example_contract_def)
  have c: "call_supportsInterface (eth_contract_at ?w ''0xC'') 0 ''0x5b5e139f'' =
           call_supportsInterface (methods ?c) 0 ''0x5b5e139f''"
    by (simp add: example_web3_def)
  from supportsInterface_variants [of ?w "''0xC''" 0 "''0x80ac58cd''" ?c] a
  have 1: "contractSupportsInterface ?w 0 ''0xC'' ''0x80ac58cd'' =
            ([SupportsInterfaceCall ''0x80ac58cd''], Inr True)" by blast
  from supportsInterface_variants [of ?w "''0xC''" 0 "''0x5b5e139f''" ?c] b c
  have 2: "contractSupportsInterface_m ?c 0 ''0x5b5e139f'' =
            ([SupportsInterfaceCall ''0x5b5e139f''], Inr False)"
    and 3: "contractSupportsInterface ?w 0 ''0xC'' ''0x5b5e139f'' =
            contractSupportsInterface_m ?c 0 ''0x5b5e139f''" by blast+
  from 1 2 3 show ?thesis by blast
qed

theorem tokenURI_requires_metadata_witness:
  "getTokenURI example_constants (example_web3 True False None) 0 ''0xC'' ''5'' =
     ([SupportsInterfaceCall ''0x5b5e139f''],
      Inl (Error ''Contract does not support ERC721 metadata interface.'')) \<and>
   getCollectibleTokenURI \<lparr>methods = example_contract True False None\<rparr> 0 ''5'' =
     ([SupportsInterfaceCall ''0x5b5e139f''],
      Inl (Error ''Contract does not support ERC721 metadata interface.''))"
proof -
  let ?w = "example_web3 True False None"
  let ?c = "\<lparr>methods = example_contract True False None\<rparr>"
  have a: "snd (contractSupportsMetadataInterface example_constants ?w 0 ''0xC'') = Inr False"
    by (simp add: contractSupportsMetadataInterface_def contractSupportsInterface_def
          promise_of_callback_def example_constants_def example_web3_def example_contract_def)
  have b: "snd (contractSupportsMetadataInterface_m ?c 0) = Inr False"
    by (simp add: contractSupportsMetadataInterface_m_def contractSupportsInterface_m_def
          promise_of_callback_def ERC721_METADATA_INTERFACE_ID_m_def example_contract_def)
  have m: "ERC721_METADATA_INTERFACE_ID example_constants = ''0x5b5e139f''"
    "ERC721_METADATA_INTERFACE_ID_m = ''0x5b5e139f''"
    by (simp_all add: example_constants_def ERC721_METADATA_INTERFACE_ID_m_def)
  from tokenURI_requires_metadata [of example_constants ?w 0 "''0xC''" "''5''" ?c] a b
  show ?thesis unfolding m by blast
qed

lemma getDetails_metadata_snd:
  "snd (getDetails_metadata consts web3 first_wins t addr tokenId) =
     (case promise_all2 first_wins (snd (getAssetSymbol web3 t addr))
             (snd (getAssetName web3 (t + 1) addr)) of
        Inl e \<Rightarrow> Inl e
      | Inr (symbol0, name0) \<Rightarrow>
          (case tokenId of
             None \<Rightarrow> Inr (None, Some symbol0, Some name0)
           | Some tid \<Rightarrow>
               if tid = [] then Inr (None, Some symbol0, Some name0)
               else (case snd (getTokenURI consts web3 (t + 2) addr tid) of
                       Inl e \<Rightarrow> Inl e
                     | Inr tokenURI0 \<Rightarrow> Inr (Some tokenURI0, Some symbol0, Some name0))))"
proof -
  obtain r1 where s: "getAssetSymbol web3 t addr = ([SymbolCall], r1)"
    by (simp add: getAssetSymbol_def)
  obtain r2 where n: "getAssetName web3 (Suc t) addr = ([NameCall], r2)"
    by (simp add: getAssetName_def)
  obtain c r3 where u: "getTokenURI consts web3 (Suc (Suc t)) addr
                          (case tokenId of Some x \<Rightarrow> x | None \<Rightarrow> []) = (c, r3)"
    by (cases "getTokenURI consts web3 (Suc (Suc t)) addr
                 (case tokenId of Some x \<Rightarrow> x | None \<Rightarrow> [])")
  show ?thesis
    unfolding getDetails_metadata_def
    using s n u
    by (cases "promise_all2 first_wins r1 r2")
       (auto simp: truthy_def split: option.splits sum.splits prod.splits)
qed

lemma getDetails_snd:
  "snd (getDetails consts web3 races t addr tokenId) =
     (case promise_all2 (fst races)
             (snd (contractSupportsBase721Interface consts web3 t addr))
             (snd (contractSupportsMetadataInterface consts web3 (t + 1) addr)) of
        Inl e \<Rightarrow> Inl e
      | Inr (isERC721, supportsMetadata) \<Rightarrow>
          (case (if supportsMetadata
                 then snd (getDetails_metadata consts web3 (snd races) (t + 2) addr tokenId)
                 else Inr (None, None, None)) of
             Inl e \<Rightarrow> Inl e
           | Inr (tokenURI0, symbol0, name0) \<Rightarrow>
               if isERC721
               then Inr \<lparr>standard = ERC721 consts, tokenURI = tokenURI0,
                         AssetDetails.symbol = symbol0, AssetDetails.name = name0\<rparr>
               else Inl (Error ''This isn't a valid ERC721 contract'')))"
proof -
  obtain r1 where b: "contractSupportsBase721Interface consts web3 t addr =
      ([SupportsInterfaceCall (ERC721_INTERFACE_ID consts)], r1)"
    by (simp add: contractSupportsBase721Interface_def contractSupportsInterface_def)
  obtain r2 where m: "contractSupportsMetadataInterface consts web3 (Suc t) addr =
      ([SupportsInterfaceCall (ERC721_METADATA_INTERFACE_ID consts)], r2)"
    by (simp add: contractSupportsMetadataInterface_def contractSupportsInterface_def)
  obtain c3 r3 where g:
    "getDetails_metadata consts web3 (snd races) (Suc (Suc t)) addr tokenId = (c3, r3)"
    by (cases "getDetails_metadata consts web3 (snd races) (Suc (Suc t)) addr tokenId")
  show ?thesis
    unfolding getDetails_def
    using b m g
    by (cases "promise_all2 (fst races) r1 r2")
       (auto split: prod.splits sum.splits)
qed

text \<open>
  Claim C6, as amended. When the base-interface check resolves to false, \<^verbatim>\<open>getDetails\<close>
  never returns an aggregate. Its rejection is the domain error
  \<^verbatim>\<open>This isn't a valid ERC721 contract\<close> when the metadata check resolves to false (and
  then only the two checks were issued), or resolves to true and the lookups that follow
  succeed: \<^verbatim>\<open>getAssetSymbol\<close>, \<^verbatim>\<open>getAssetName\<close> and, for a non-empty token id,
  \<^verbatim>\<open>getTokenURI\<close>. When the metadata check, the symbol lookup, the name lookup or
  \<^verbatim>\<open>getTokenURI\<close> rejects, \<^verbatim>\<open>getDetails\<close> rejects with that rejection instead, whatever
  the base check resolved to (of a symbol and a name lookup that both reject, with the one
  that arrives first). When the base check resolves to true and nothing rejects, the result
  is the aggregate: its three optional fields are unset if the metadata check resolved to
  false; otherwise symbol and name are the values looked up, and the token URI is the one
  of \<^verbatim>\<open>getTokenURI\<close> for a non-empty token id and unset without one.
\<close>

theorem getDetails_base_interface:
  "(snd (contractSupportsBase721Interface consts web3 t addr) = Inr False \<longrightarrow>
      (\<exists>e. snd (getDetails consts web3 races t addr tokenId) = Inl e)) \<and>
   (snd (contractSupportsBase721Interface consts web3 t addr) = Inr False \<and>
    snd (contractSupportsMetadataInterface consts web3 (t + 1) addr) = Inr False \<longrightarrow>
      getDetails consts web3 races t addr tokenId =
        ([SupportsInterfaceCall (ERC721_INTERFACE_ID consts),
          SupportsInterfaceCall (ERC721_METADATA_INTERFACE_ID consts)],
         Inl (Error ''This isn't a valid ERC721 contract''))) \<and>
   (\<forall>sy nm. snd (contractSupportsBase721Interface consts web3 t addr) = Inr False \<and>
        snd (contractSupportsMetadataInterface consts web3 (t + 1) addr) = Inr True \<and>
        snd (getAssetSymbol web3 (t + 2) addr) = Inr sy \<and>
        snd (getAssetName web3 (t + 3) addr) = Inr nm \<and>
        (tokenId = None \<or> tokenId = Some []) \<longrightarrow>
          snd (getDetails consts web3 races t addr tokenId) =
            Inl (Error ''This isn't a valid ERC721 contract'')) \<and>
   (\<forall>sy nm tid u. snd (contractSupportsBase721Interface consts web3 t addr) = Inr False \<and>
        snd (contractSupportsMetadataInterface consts web3 (t + 1) addr) = Inr True \<and>
        snd (getAssetSymbol web3 (t + 2) addr) = Inr sy \<and>
        snd (getAssetName web3 (t + 3) addr) = Inr nm \<and>
        tokenId = Some tid \<and> tid \<noteq> [] \<and>
        snd (getTokenURI consts web3 (t + 4) addr tid) = Inr u \<longrightarrow>
          snd (getDetails consts web3 races t addr tokenId) =
            Inl (Error ''This isn't a valid ERC721 contract'')) \<and>
   (\<forall>b e. snd (contractSupportsBase721Interface consts web3 t addr) = Inr b \<and>
        snd (contractSupportsMetadataInterface consts web3 (t + 1) addr) = Inl e \<longrightarrow>
          snd (getDetails consts web3 races t addr tokenId) = Inl e) \<and>
   (\<forall>b e nm. snd (contractSupportsBase721Interface consts web3 t addr) = Inr b \<and>
        snd (contractSupportsMetadataInterface consts web3 (t + 1) addr) = Inr True \<and>
        snd (getAssetSymbol web3 (t + 2) addr) = Inl e \<and>
        snd (getAssetName web3 (t + 3) addr) = Inr nm \<longrightarrow>
          snd (getDetails consts web3 races t addr tokenId) = Inl e) \<and>
   (\<forall>b sy e. snd (contractSupportsBase721Interface consts web3 t addr) = Inr b \<and>
        snd (contractSupportsMetadataInterface consts web3 (t + 1) addr) = Inr True \<and>
        snd (getAssetSymbol web3 (t + 2) addr) = Inr sy \<and>
        snd (getAssetName web3 (t + 3) addr) = Inl e \<longrightarrow>
          snd (getDetails consts web3 races t addr tokenId) = Inl e) \<and>
   (\<forall>b e1 e2. snd (contractSupportsBase721Interface consts web3 t addr) = Inr b \<and>
        snd (contractSupportsMetadataInterface consts web3 (t + 1) addr) = Inr True \<and>
        snd (getAssetSymbol web3 (t + 2) addr) = Inl e1 \<and>
        snd (getAssetName web3 (t + 3) addr) = Inl e2 \<longrightarrow>
          snd (getDetails consts web3 races t addr tokenId) =
            Inl (if snd races then e1 else e2)) \<and>
   (\<forall>b sy nm tid e. snd (contractSupportsBase721Interface consts web3 t addr) = Inr b \<and>
        snd (contractSupportsMetadataInterface consts web3 (t + 1) addr) = Inr True \<and>
        snd (getAssetSymbol web3 (t + 2) addr) = Inr sy \<and>
        snd (getAssetName web3 (t + 3) addr) = Inr nm \<and>
        tokenId = Some tid \<and> tid \<noteq> [] \<and>
        snd (getTokenURI consts web3 (t + 4) addr tid) = Inl e \<longrightarrow>
          snd (getDetails consts web3 races t addr tokenId) = Inl e) \<and>
   (snd (contractSupportsBase721Interface consts web3 t addr) = Inr True \<and>
    snd (contractSupportsMetadataInterface consts web3 (t + 1) addr) = Inr False \<longrightarrow>
      snd (getDetails consts web3 races t addr tokenId) =
        Inr \<lparr>standard = ERC721 consts, tokenURI = None,
             AssetDetails.symbol = None, AssetDetails.name = None\<rparr>) \<and>
   (\<forall>sy nm. snd (contractSupportsBase721Interface consts web3 t addr) = Inr True \<and>
        snd (contractSupportsMetadataInterface consts web3 (t + 1) addr) = Inr True \<and>
        snd (getAssetSymbol web3 (t + 2) addr) = Inr sy \<and>
        snd (getAssetName web3 (t + 3) addr) = Inr nm \<and>
        (tokenId = None \<or> tokenId = Some []) \<longrightarrow>
          snd (getDetails consts web3 races t addr tokenId) =
            Inr \<lparr>standard = ERC721 consts, tokenURI = None,
                 AssetDetails.symbol = Some sy, AssetDetails.name = Some nm\<rparr>) \<and>
   (\<forall>sy nm tid u. snd (contractSupportsBase721Interface consts web3 t addr) = Inr True \<and>
        snd (contractSupportsMetadataInterface consts web3 (t + 1) addr) = Inr True \<and>
        snd (getAssetSymbol web3 (t + 2) addr) = Inr sy \<and>
        snd (getAssetName web3 (t + 3) addr) = Inr nm \<and>
        tokenId = Some tid \<and> tid \<noteq> [] \<and>
        snd (getTokenURI consts web3 (t + 4) addr tid) = Inr u \<longrightarrow>
          snd (getDetails consts web3 races t addr tokenId) =
            Inr \<lparr>standard = ERC721 consts, tokenURI = Some u,
                 AssetDetails.symbol = Some sy, AssetDetails.name = Some nm\<rparr>)"
proof -
  let ?base = "snd (contractSupportsBase721Interface consts web3 t addr)"
  let ?meta = "snd (contractSupportsMetadataInterface consts web3 (t + 1) addr)"
  let ?sym = "snd (getAssetSymbol web3 (t + 2) addr)"
  let ?nam = "snd (getAssetName web3 (t + 3) addr)"
  let ?G = "getDetails consts web3 races t addr tokenId"
  have block: "snd (getDetails_metadata consts web3 (snd races) (t + 2) addr tokenId) =
     (case promise_all2 (snd races) ?sym ?nam of
        Inl e \<Rightarrow> Inl e
      | Inr (symbol0, name0) \<Rightarrow>
          (case tokenId of
             None \<Rightarrow> Inr (None, Some symbol0, Some name0)
           | Some tid \<Rightarrow>
               if tid = [] then Inr (None, Some symbol0, Some name0)
               else (case snd (getTokenURI consts web3 (t + 4) addr tid) of
                       Inl e \<Rightarrow> Inl e
                     | Inr tokenURI0 \<Rightarrow> Inr (Some tokenURI0, Some symbol0, Some name0))))"
  proof -
    have ticks: "t + 2 + 1 = t + 3" "t + 2 + 2 = t + 4" by simp_all
    show ?thesis
      unfolding getDetails_metadata_snd ticks by (rule refl)
  qed
  have never: "\<exists>e. snd ?G = Inl e" if "?base = Inr False"
    using that unfolding getDetails_snd
    by (auto simp: promise_all2_def split: sum.splits prod.splits if_splits)
  have none: "?G =
        ([SupportsInterfaceCall (ERC721_INTERFACE_ID consts),
          SupportsInterfaceCall (ERC721_METADATA_INTERFACE_ID consts)],
         Inl (Error ''This isn't a valid ERC721 contract''))"
    if "?base = Inr False \<and> ?meta = Inr False"
  proof -
    obtain r1 where b: "contractSupportsBase721Interface consts web3 t addr =
        ([SupportsInterfaceCall (ERC721_INTERFACE_ID consts)], r1)"
      by (simp add: contractSupportsBase721Interface_def contractSupportsInterface_def)
    obtain r2 where m: "contractSupportsMetadataInterface consts web3 (Suc t) addr =
        ([SupportsInterfaceCall (ERC721_METADATA_INTERFACE_ID consts)], r2)"
      by (simp add: contractSupportsMetadataInterface_def contractSupportsInterface_def)
    from that b m have "r1 = Inr False" "r2 = Inr False" by simp_all
    with b m show ?thesis
      unfolding getDetails_def by (simp add: promise_all2_def)
  qed
  note rest = getDetails_snd [of "consts" web3 races t addr tokenId] block
  show ?thesis
    apply (intro conjI allI impI)
    subgoal using never by blast
    subgoal using none by blast
    subgoal unfolding rest by (auto simp: promise_all2_def)
    subgoal unfolding rest by (auto simp: promise_all2_def)
    subgoal unfolding rest by (auto simp: promise_all2_def)
    subgoal unfolding rest by (auto simp: promise_all2_def)
    subgoal unfolding rest by (auto simp: promise_all2_def)
    subgoal unfolding rest by (auto simp: promise_all2_def)
    subgoal unfolding rest by (auto simp: promise_all2_def)
    subgoal unfolding rest by (auto simp: promise_all2_def)
    subgoal unfolding rest by (auto simp: promise_all2_def)
    subgoal unfolding rest by (auto simp: promise_all2_def)
    done
qed

theorem getDetails_base_interface_witness:
  "getDetails example_constants (example_web3 False False None) (True, True) 0 ''0xC'' (Some ''5'') =
     ([SupportsInterfaceCall ''0x80ac58cd'', SupportsInterfaceCall ''0x5b5e139f''],
      Inl (Error ''This isn't a valid ERC721 contract'')) \<and>
   snd (getDetails example_constants (example_web3 False True None) (True, True) 0 ''0xC'' (Some ''5'')) =
     Inl (Error ''This isn't a valid ERC721 contract'') \<and>
   snd (getDetails example_constants (example_web3 False True None) (True, True) 0 ''0xC'' None) =
     Inl (Error ''This isn't a valid ERC721 contract'') \<and>
   snd (getDetails example_constants (example_web3 True False None) (True, True) 0 ''0xC'' (Some ''5'')) =
     Inr \<lparr>standard = ''ERC721'', tokenURI = None,
          AssetDetails.symbol = None, AssetDetails.name = None\<rparr> \<and>
   snd (getDetails example_constants (example_web3 True True None) (True, True) 0 ''0xC'' (Some ''5'')) =
     Inr \<lparr>standard = ''ERC721'', tokenURI = Some ''https://example.org/5'',
          AssetDetails.symbol = Some ''EX'', AssetDetails.name = Some ''Example''\<rparr> \<and>
   snd (getDetails example_constants (example_web3 True True None) (True, True) 0 ''0xC'' None) =
     Inr \<lparr>standard = ''ERC721'', tokenURI = None,
          AssetDetails.symbol = Some ''EX'', AssetDetails.name = Some ''Example''\<rparr> \<and>
   snd (getDetails example_constants (example_web3 True True (Some (Error ''execution reverted'')))
          (True, True) 0 ''0xC'' (Some ''5'')) = Inl (Error ''execution reverted'') \<and>
   snd (getDetails example_constants
          (example_failing_web3 (Some (Error ''no such method'')) None None None)
          (True, True) 0 ''0xC'' (Some ''5'')) = Inl (Error ''no such method'') \<and>
   snd (getDetails example_constants
          (example_failing_web3 None None (Some (Error ''name reverted'')) None)
          (True, True) 0 ''0xC'' (Some ''5'')) = Inl (Error ''name reverted'') \<and>
   snd (getDetails example_constants
          (example_failing_web3 None (Some (Error ''symbol reverted''))
             (Some (Error ''name reverted'')) None)
          (True, True) 0 ''0xC'' (Some ''5'')) = Inl (Error ''symbol reverted'') \<and>
   snd (getDetails example_constants
          (example_failing_web3 None None None (Some (Error ''uri reverted'')))
          (True, True) 0 ''0xC'' (Some ''5'')) = Inl (Error ''uri reverted'')"
proof -
  note defs = contractSupportsBase721Interface_def contractSupportsMetadataInterface_def
    contractSupportsInterface_def getAssetSymbol_def getAssetName_def getTokenURI_def
    promise_of_callback_def example_constants_def example_web3_def example_contract_def
    example_failing_web3_def example_failing_contract_def
  have base: "\<And>b m e. snd (contractSupportsBase721Interface example_constants
                 (example_web3 b m e) 0 ''0xC'') = Inr b"
    and meta: "\<And>b m e. snd (contractSupportsMetadataInterface example_constants
                 (example_web3 b m e) (0 + 1) ''0xC'') = Inr m"
    and sym: "\<And>b m. snd (getAssetSymbol (example_web3 b m None) (0 + 2) ''0xC'') = Inr ''EX''"
    and sym_fail: "\<And>b m e. snd (getAssetSymbol (example_web3 b m (Some e)) (0 + 2) ''0xC'') = Inl e"
    and nam: "\<And>b m e. snd (getAssetName (example_web3 b m e) (0 + 3) ''0xC'') = Inr ''Example''"
    and uri: "\<And>b e. snd (getTokenURI example_constants (example_web3 b True e) (0 + 4) ''0xC''
                 ''5'') = Inr ''https://example.org/5''"
    by (simp_all add: defs)
  have fbase: "\<And>me se ne ue. snd (contractSupportsBase721Interface example_constants
                 (example_failing_web3 me se ne ue) 0 ''0xC'') = Inr True"
    and fmeta: "\<And>se ne ue. snd (contractSupportsMetadataInterface example_constants
                 (example_failing_web3 None se ne ue) (0 + 1) ''0xC'') = Inr True"
    and fmeta_fail: "\<And>e se ne ue. snd (contractSupportsMetadataInterface example_constants
                 (example_failing_web3 (Some e) se ne ue) (0 + 1) ''0xC'') = Inl e"
    and fsym: "\<And>me ne ue. snd (getAssetSymbol (example_failing_web3 me None ne ue) (0 + 2)
                 ''0xC'') = Inr ''EX''"
    and fsym_fail: "\<And>me e ne ue. snd (getAssetSymbol (example_failing_web3 me (Some e) ne ue)
                 (0 + 2) ''0xC'') = Inl e"
    and fnam: "\<And>me se ue. snd (getAssetName (example_failing_web3 me se None ue) (0 + 3)
                 ''0xC'') = Inr ''Example''"
    and fnam_fail: "\<And>me se e ue. snd (getAssetName (example_failing_web3 me se (Some e) ue)
                 (0 + 3) ''0xC'') = Inl e"
    and furi_fail: "\<And>se ne e. snd (getTokenURI example_constants
                 (example_failing_web3 None se ne (Some e)) (0 + 4) ''0xC'' ''5'') = Inl e"
    by (simp_all add: defs)
  have ids: "ERC721_INTERFACE_ID example_constants = ''0x80ac58cd''"
    "ERC721_METADATA_INTERFACE_ID example_constants = ''0x5b5e139f''"
    "ERC721 example_constants = ''ERC721''"
    by (simp_all add: example_constants_def)
  have some: "Some ''5'' = Some ''5'' \<and> ''5'' \<noteq> []" by simp
  have absent: "(None :: string option) = None \<or> (None :: string option) = Some []" by simp
  note with_id = getDetails_base_interface
                   [of example_constants _ 0 "''0xC''" "(True, True)" "Some ''5''"]
  note without_id = getDetails_base_interface
                      [of example_constants _ 0 "''0xC''" "(True, True)" None]
  have 1: "getDetails example_constants (example_web3 False False None) (True, True) 0 ''0xC''
             (Some ''5'') =
           ([SupportsInterfaceCall ''0x80ac58cd'', SupportsInterfaceCall ''0x5b5e139f''],
            Inl (Error ''This isn't a valid ERC721 contract''))"
    using with_id [of "example_web3 False False None"] base [of False False None]
      meta [of False False None] unfolding ids by simp
  have 2: "snd (getDetails example_constants (example_web3 False True None) (True, True) 0 ''0xC''
             (Some ''5'')) = Inl (Error ''This isn't a valid ERC721 contract'')"
    using with_id [of "example_web3 False True None"] base [of False True None]
      meta [of False True None] sym [of False True] nam [of False True None]
      uri [of False None] some by simp
  have 3: "snd (getDetails example_constants (example_web3 False True None) (True, True) 0 ''0xC''
             None) = Inl (Error ''This isn't a valid ERC721 contract'')"
    using without_id [of "example_web3 False True None"] base [of False True None]
      meta [of False True None] sym [of False True] nam [of False True None] absent by simp
  have 4: "snd (getDetails example_constants (example_web3 True False None) (True, True) 0 ''0xC''
             (Some ''5'')) =
           Inr \<lparr>standard = ''ERC721'', tokenURI = None,
                AssetDetails.symbol = None, AssetDetails.name = None\<rparr>"
    using with_id [of "example_web3 True False None"] base [of True False None]
      meta [of True False None] unfolding ids by simp
  have 5: "snd (getDetails example_constants (example_web3 True True None) (True, True) 0 ''0xC''
             (Some ''5'')) =
           Inr \<lparr>standard = ''ERC721'', tokenURI = Some ''https://example.org/5'',
                AssetDetails.symbol = Some ''EX'', AssetDetails.name = Some ''Example''\<rparr>"
    using with_id [of "example_web3 True True None"] base [of True True None]
      meta [of True True None] sym [of True True] nam [of True True None]
      uri [of True None] some unfolding ids by simp
  have 6: "snd (getDetails example_constants (example_web3 True True None) (True, True) 0 ''0xC''
             None) =
           Inr \<lparr>standard = ''ERC721'', tokenURI = None,
                AssetDetails.symbol = Some ''EX'', AssetDetails.name = Some ''Example''\<rparr>"
    using without_id [of "example_web3 True True None"] base [of True True None]
      meta [of True True None] sym [of True True] nam [of True True None] absent
    unfolding ids by simp
  have 7: "snd (getDetails example_constants
             (example_web3 True True (Some (Error ''execution reverted''))) (True, True) 0 ''0xC''
             (Some ''5'')) = Inl (Error ''execution reverted'')"
    using with_id [of "example_web3 True True (Some (Error ''execution reverted''))"]
      base [of True True "Some (Error ''execution reverted'')"]
      meta [of True True "Some (Error ''execution reverted'')"]
      sym_fail [of True True "Error ''execution reverted''"]
      nam [of True True "Some (Error ''execution reverted'')"] by auto
  have 8: "snd (getDetails example_constants
          (example_failing_web3 (Some (Error ''no such method'')) None None None)
          (True, True) 0 ''0xC'' (Some ''5'')) = Inl (Error ''no such method'')"
    using with_id [of "example_failing_web3 (Some (Error ''no such method'')) None None None"]
      fbase [of "Some (Error ''no such method'')" None None None]
      fmeta_fail [of "Error ''no such method''" None None None] by auto
  have 9: "snd (getDetails example_constants
          (example_failing_web3 None None (Some (Error ''name reverted'')) None)
          (True, True) 0 ''0xC'' (Some ''5'')) = Inl (Error ''name reverted'')"
    using with_id [of "example_failing_web3 None None (Some (Error ''name reverted'')) None"]
      fbase [of None None "Some (Error ''name reverted'')" None]
      fmeta [of None "Some (Error ''name reverted'')" None]
      fsym [of None "Some (Error ''name reverted'')" None]
      fnam_fail [of None None "Error ''name reverted''" None] by auto
  have "snd (getDetails example_constants
          (example_failing_web3 None (Some (Error ''symbol reverted''))
             (Some (Error ''name reverted'')) None)
          (True, True) 0 ''0xC'' (Some ''5'')) =
        Inl (if snd (True, True) then Error ''symbol reverted'' else Error ''name reverted'')"
    using with_id [of "example_failing_web3 None (Some (Error ''symbol reverted''))
             (Some (Error ''name reverted'')) None"]
      fbase [of None "Some (Error ''symbol reverted'')" "Some (Error ''name reverted'')" None]
      fmeta [of "Some (Error ''symbol reverted'')" "Some (Error ''name reverted'')" None]
      fsym_fail [of None "Error ''symbol reverted''" "Some (Error ''name reverted'')" None]
      fnam_fail [of None "Some (Error ''symbol reverted'')" "Error ''name reverted''" None]
    by auto
  then have 10: "snd (getDetails example_constants
          (example_failing_web3 None (Some (Error ''symbol reverted''))
             (Some (Error ''name reverted'')) None)
          (True, True) 0 ''0xC'' (Some ''5'')) = Inl (Error ''symbol reverted'')"
    by auto
  have 11: "snd (getDetails example_constants
          (example_failing_web3 None None None (Some (Error ''uri reverted'')))
          (True, True) 0 ''0xC'' (Some ''5'')) = Inl (Error ''uri reverted'')"
    using with_id [of "example_failing_web3 None None None (Some (Error ''uri reverted''))"]
      fbase [of None None None "Some (Error ''uri reverted'')"]
      fmeta [of None None "Some (Error ''uri reverted'')"]
      fsym [of None None "Some (Error ''uri reverted'')"]
      fnam [of None None "Some (Error ''uri reverted'')"]
      furi_fail [of None None "Error ''uri reverted''"] some by auto
  from 1 2 3 4 5 6 7 8 9 10 11 show ?thesis by blast
qed

text \<open>
  The claim as first stated fails: with a base check that resolves to false, a metadata
  check that resolves to true and a \<^verbatim>\<open>symbol\<close> call that fails, \<^verbatim>\<open>getDetails\<close> rejects
  with the error of the \<^verbatim>\<open>symbol\<close> call, not with the domain error; and with a base
  check that resolves to true it rejects likewise instead of returning the aggregate.
\<close>

theorem getDetails_domain_error_counterexample:
  "snd (contractSupportsBase721Interface example_constants
          (example_web3 False True (Some (Error ''execution reverted''))) 0 ''0xC'') = Inr False \<and>
   getDetails example_constants (example_web3 False True (Some (Error ''execution reverted'')))
       (True, True) 0 ''0xC'' None =
     ([SupportsInterfaceCall ''0x80ac58cd'', SupportsInterfaceCall ''0x5b5e139f'',
       SymbolCall, NameCall], Inl (Error ''execution reverted'')) \<and>
   Error ''execution reverted'' \<noteq> Error ''This isn't a valid ERC721 contract'' \<and>
   snd (contractSupportsBase721Interface example_constants
          (example_web3 True True (Some (Error ''execution reverted''))) 0 ''0xC'') = Inr True \<and>
   snd (getDetails example_constants (example_web3 True True (Some (Error ''execution reverted'')))
       (True, True) 0 ''0xC'' None) = Inl (Error ''execution reverted'')"
  by (simp add: getDetails_def getDetails_metadata_def getAssetSymbol_def getAssetName_def
        contractSupportsBase721Interface_def contractSupportsMetadataInterface_def
        contractSupportsInterface_def promise_all2_def promise_of_callback_def
        example_constants_def example_web3_def example_contract_def)

end
